theory Spec2Isabelle
  imports Complex_Main
begin

section \<open>Test pyramid monitor and marker validator\<close>

text \<open>
  A shallow embedding of \<^verbatim>\<open>pyramid-monitor.py\<close> (class \<^verbatim>\<open>TestPyramidMonitor\<close>) and of
  \<^verbatim>\<open>validate-markers.py\<close> (class \<^verbatim>\<open>TestMarkerValidator\<close>).

  Conventions of the embedding:
  \<^item> a Python \<^verbatim>\<open>str\<close> is a \<open>string\<close>; file contents are taken to be ASCII text, so the
    character classes \<^verbatim>\<open>\w\<close> and \<^verbatim>\<open>\s\<close> and the methods \<^verbatim>\<open>strip\<close> and \<^verbatim>\<open>lower\<close> are written out
    for the ASCII range;
  \<^item> a Python \<^verbatim>\<open>float\<close> is a \<open>real\<close>: the arithmetic of the scorer is the exact one,
    rounding is not modelled;
  \<^item> the three marker names \<^verbatim>\<open>"unit"\<close>, \<^verbatim>\<open>"integration"\<close>, \<^verbatim>\<open>"e2e"\<close>, the only keys
    \<^verbatim>\<open>tests_by_marker\<close> ever has, are the datatype \<open>tier\<close>; \<^verbatim>\<open>targets\<close>, which \<^verbatim>\<open>main\<close> always
    builds with exactly these three keys, and a distribution are functions on \<open>tier\<close>;
  \<^item> a Python \<^verbatim>\<open>set\<close> is a HOL set, \<^verbatim>\<open>len\<close> is \<open>card\<close>;
  \<^item> an exception is a value of \<open>py_error\<close>; what is printed on \<^verbatim>\<open>stderr\<close> by an
    \<^verbatim>\<open>except\<close> branch is returned as a list of warnings.
\<close>

subsection \<open>Strings\<close>

definition is_word :: "char \<Rightarrow> bool" where
  \<comment> \<open>\<^verbatim>\<open>\w\<close> on ASCII: letters, digits and the underscore\<close>
  "is_word c = (let n = (of_char c :: nat) in
     (97 \<le> n \<and> n \<le> 122) \<or> (65 \<le> n \<and> n \<le> 90) \<or> (48 \<le> n \<and> n \<le> 57) \<or> n = 95)"

definition is_space :: "char \<Rightarrow> bool" where
  \<comment> \<open>\<^verbatim>\<open>\s\<close> and the characters removed by \<^verbatim>\<open>str.strip()\<close>, on ASCII:
      tab, line feed, vertical tab, form feed, carriage return, the four separators
      \<^verbatim>\<open>\x1c\<close> to \<^verbatim>\<open>\x1f\<close>, and the space\<close>
  "is_space c = (let n = (of_char c :: nat) in
     (9 \<le> n \<and> n \<le> 13) \<or> (28 \<le> n \<and> n \<le> 31) \<or> n = 32)"

definition is_quote :: "char \<Rightarrow> bool" where
  \<comment> \<open>the character class \<^verbatim>\<open>['\"]\<close>\<close>
  "is_quote c = (c = CHR 0x27 \<or> c = CHR 0x22)"

definition lower_char :: "char \<Rightarrow> char" where
  "lower_char c = (let n = (of_char c :: nat) in
     if 65 \<le> n \<and> n \<le> 90 then char_of (n + 32) else c)"

definition lower :: "string \<Rightarrow> string" where
  \<comment> \<open>\<^verbatim>\<open>str.lower()\<close>\<close>
  "lower s = map lower_char s"

definition strip :: "string \<Rightarrow> string" where
  \<comment> \<open>\<^verbatim>\<open>str.strip()\<close>\<close>
  "strip s = rev (dropWhile is_space (rev (dropWhile is_space s)))"

definition startswith :: "string \<Rightarrow> string \<Rightarrow> bool" where
  \<comment> \<open>\<^verbatim>\<open>s.startswith(p)\<close>\<close>
  "startswith p s = (take (length p) s = p)"

fun contains :: "string \<Rightarrow> string \<Rightarrow> bool" where
  \<comment> \<open>\<^verbatim>\<open>p in s\<close>\<close>
  "contains p [] = (p = [])"
| "contains p (c # cs) = (startswith p (c # cs) \<or> contains p cs)"

fun split_nl :: "string \<Rightarrow> string list" where
  \<comment> \<open>\<^verbatim>\<open>s.split("\n")\<close>: never empty, the last element is what follows the last line feed\<close>
  "split_nl [] = [[]]"
| "split_nl (c # cs) =
     (if c = CHR 0x0A then [] # split_nl cs
      else (case split_nl cs of l # ls \<Rightarrow> (c # l) # ls | [] \<Rightarrow> [[c]]))"

fun join_nl :: "string list \<Rightarrow> string" where
  \<comment> \<open>\<^verbatim>\<open>"\n".join(ls)\<close>, used to write files down line by line\<close>
  "join_nl [] = []"
| "join_nl [l] = l"
| "join_nl (l # ls) = l @ CHR 0x0A # join_nl ls"

definition last_n :: "nat \<Rightarrow> 'a list \<Rightarrow> 'a list" where
  \<comment> \<open>the slice \<^verbatim>\<open>xs[-n:]\<close> for \<open>n > 0\<close>\<close>
  "last_n n xs = drop (length xs - n) xs"

subsection \<open>Tiers, errors and the monitor's state\<close>

datatype tier = Unit | Integration | E2e

datatype py_error = ZeroDivisionError | ValueError | OSError

definition all_tiers :: "tier list" where
  \<comment> \<open>the keys of \<^verbatim>\<open>targets\<close> and of \<^verbatim>\<open>tests_by_marker\<close>, in insertion order\<close>
  "all_tiers = [Unit, Integration, E2e]"

record monitor =
  targets :: "tier \<Rightarrow> real"
  minimum_score :: real
  tests_by_marker :: "tier \<Rightarrow> string set"
  all_tests :: "string set"
  test_files_scanned :: nat

definition DEFAULT_TARGETS :: "tier \<Rightarrow> real" where
  "DEFAULT_TARGETS t = (case t of Unit \<Rightarrow> 70 | Integration \<Rightarrow> 20 | E2e \<Rightarrow> 10)"

definition init_monitor :: "(tier \<Rightarrow> real) \<Rightarrow> real \<Rightarrow> monitor" where
  \<comment> \<open>\<^verbatim>\<open>__init__\<close>\<close>
  "init_monitor tg ms =
     \<lparr>targets = tg, minimum_score = ms, tests_by_marker = (\<lambda>_. {}), all_tests = {},
      test_files_scanned = 0\<rparr>"

subsection \<open>Distribution and score\<close>

definition py_truediv :: "real \<Rightarrow> real \<Rightarrow> py_error + real" where
  \<comment> \<open>Python's \<^verbatim>\<open>/\<close>: division by zero raises\<close>
  "py_truediv a b = (if b = 0 then Inl ZeroDivisionError else Inr (a / b))"

fun distribution_loop ::
  "monitor \<Rightarrow> nat \<Rightarrow> tier list \<Rightarrow> (tier \<Rightarrow> real) \<Rightarrow> py_error + (tier \<Rightarrow> real)" where
  \<comment> \<open>\<^verbatim>\<open>for marker in self.targets: distribution[marker] = (count / total) * 100\<close>,
      with \<open>n\<close> for \<^verbatim>\<open>total\<close>\<close>
  "distribution_loop m n [] d = Inr d"
| "distribution_loop m n (marker # ms) d =
     (case py_truediv (real (card (tests_by_marker m marker))) (real n) of
        Inl e \<Rightarrow> Inl e
      | Inr q \<Rightarrow> distribution_loop m n ms (d(marker := q * 100)))"

definition calculate_distribution :: "monitor \<Rightarrow> py_error + (tier \<Rightarrow> real)" where
  "calculate_distribution m =
     (let n = card (all_tests m) in
      if n = 0 then Inr (\<lambda>marker. 0)
      else distribution_loop m n all_tiers (\<lambda>marker. 0))"

fun penalty_loop :: "(tier \<Rightarrow> real) \<Rightarrow> (tier \<Rightarrow> real) \<Rightarrow> tier list \<Rightarrow> real \<Rightarrow> real" where
  \<comment> \<open>\<^verbatim>\<open>for marker, target in self.targets.items(): score -= abs(actual - target) * 0.1\<close>\<close>
  "penalty_loop tg distribution [] score = score"
| "penalty_loop tg distribution (marker # ms) score =
     (let target = tg marker;
          actual = distribution marker;
          deviation = \<bar>actual - target\<bar>;
          penalty = deviation * (1 / 10)
      in penalty_loop tg distribution ms (score - penalty))"

definition categorized_count :: "monitor \<Rightarrow> int" where
  \<comment> \<open>\<^verbatim>\<open>sum(len(tests) for tests in self.tests_by_marker.values())\<close>\<close>
  "categorized_count m = (\<Sum>t\<leftarrow>all_tiers. int (card (tests_by_marker m t)))"

definition uncategorized_pct :: "monitor \<Rightarrow> py_error + real" where
  \<comment> \<open>the percentage that \<^verbatim>\<open>calculate_score\<close> penalises: \<^verbatim>\<open>uncategorized_pct\<close> inside the
      guard, and nothing (a penalty of 0) when the guard fails\<close>
  "uncategorized_pct m =
     (let categorized = categorized_count m;
          uncategorized = int (card (all_tests m)) - categorized
      in if uncategorized > 0 \<and> card (all_tests m) > 0
         then (case py_truediv (real_of_int uncategorized) (real (card (all_tests m))) of
                 Inl e \<Rightarrow> Inl e
               | Inr q \<Rightarrow> Inr (q * 100))
         else Inr 0)"

definition calculate_score :: "monitor \<Rightarrow> (tier \<Rightarrow> real) \<Rightarrow> py_error + real" where
  "calculate_score m distribution =
     (let score = penalty_loop (targets m) distribution all_tiers 10 in
      case uncategorized_pct m of
        Inl e \<Rightarrow> Inl e
      | Inr pct \<Rightarrow> Inr (max 0 (min 10 (score - pct * (2 / 10)))))"

definition get_missing_markers_count :: "monitor \<Rightarrow> nat" where
  \<comment> \<open>\<^verbatim>\<open>len(self.all_tests - categorized)\<close> with \<^verbatim>\<open>categorized\<close> the union of the tier sets\<close>
  "get_missing_markers_count m = card (all_tests m - (\<Union>t\<in>set all_tiers. tests_by_marker m t))"

subsection \<open>Files\<close>

datatype file_data =
    Missing \<comment> \<open>\<^verbatim>\<open>file_path.exists()\<close> is false\<close>
  | Unreadable py_error \<comment> \<open>\<^verbatim>\<open>read_text\<close> raises\<close>
  | Readable string \<comment> \<open>\<^verbatim>\<open>read_text\<close> returns the content\<close>

record src_file =
  path :: string \<comment> \<open>\<^verbatim>\<open>str(file_path)\<close>\<close>
  rel_path :: "string option"
    \<comment> \<open>\<^verbatim>\<open>str(file_path.relative_to(self.project_root))\<close>, \<open>None\<close> when the path is not
        under the project root and \<^verbatim>\<open>relative_to\<close> raises \<^verbatim>\<open>ValueError\<close>\<close>
  data :: file_data

datatype warning = Could_not_parse string py_error
  \<comment> \<open>\<^verbatim>\<open>print(f"Warning: Could not parse {file_path}: {e}", file=sys.stderr)\<close>\<close>

definition read_text :: "src_file \<Rightarrow> py_error + string" where
  "read_text f = (case data f of Missing \<Rightarrow> Inl OSError | Unreadable e \<Rightarrow> Inl e | Readable c \<Rightarrow> Inr c)"

definition marker_name :: "tier \<Rightarrow> string" where
  "marker_name t = (case t of Unit \<Rightarrow> ''unit'' | Integration \<Rightarrow> ''integration'' | E2e \<Rightarrow> ''e2e'')"

definition add_test :: "string \<Rightarrow> tier set \<Rightarrow> monitor \<Rightarrow> monitor" where
  \<comment> \<open>\<^verbatim>\<open>self.all_tests.add(test_id)\<close>, then \<^verbatim>\<open>self.tests_by_marker[marker].add(test_id)\<close>
      for each marker of the given set\<close>
  "add_test tid ms m =
     m\<lparr>all_tests := insert tid (all_tests m),
       tests_by_marker := (\<lambda>t. if t \<in> ms then insert tid (tests_by_marker m t)
                                 else tests_by_marker m t)\<rparr>"

subsection \<open>Convention A: the Python extractor of the monitor\<close>

definition class_match :: "string \<Rightarrow> string option" where
  \<comment> \<open>\<^verbatim>\<open>re.match(r"^class (Test\w+)", line)\<close>, group 1\<close>
  "class_match line =
     (if startswith ''class Test'' line
      then (let w = takeWhile is_word (drop 10 line)
            in if w = [] then None else Some (''Test'' @ w))
      else None)"

definition marker_at :: "string \<Rightarrow> tier option" where
  \<comment> \<open>\<^verbatim>\<open>@pytest\.mark\.(unit|integration|e2e)\<close> matched at the start of the text\<close>
  "marker_at s =
     (if startswith ''@pytest.mark.'' s
      then (let r = drop 13 s
            in if startswith ''unit'' r then Some Unit
               else if startswith ''integration'' r then Some Integration
               else if startswith ''e2e'' r then Some E2e
               else None)
      else None)"

fun marker_search :: "string \<Rightarrow> tier option" where
  \<comment> \<open>\<^verbatim>\<open>re.search(r"@pytest\.mark\.(unit|integration|e2e)", line)\<close>, group 1 of the
      leftmost match\<close>
  "marker_search [] = None"
| "marker_search (c # cs) =
     (case marker_at (c # cs) of Some t \<Rightarrow> Some t | None \<Rightarrow> marker_search cs)"

definition test_match :: "string \<Rightarrow> string option" where
  \<comment> \<open>\<^verbatim>\<open>re.match(r"^    def (test_\w+)", line)\<close>, group 1\<close>
  "test_match line =
     (if startswith ''    def test_'' line
      then (let w = takeWhile is_word (drop 13 line)
            in if w = [] then None else Some (''test_'' @ w))
      else None)"

record py_locals =
  class_markers :: "tier set"
  function_markers :: "tier set"
  current_class :: "string option"

definition class_lookback :: "string list \<Rightarrow> nat \<Rightarrow> tier set" where
  \<comment> \<open>\<^verbatim>\<open>for j in range(max(0, i - 10), i)\<close>: the markers of the lines looked at\<close>
  "class_lookback lines i =
     fold (\<lambda>j cm. case marker_search (lines ! j) of Some t \<Rightarrow> insert t cm | None \<Rightarrow> cm)
       [i - 10 ..< i] {}"

definition py_class_step :: "string list \<Rightarrow> nat \<Rightarrow> py_locals \<Rightarrow> py_locals" where
  "py_class_step lines i loc =
     (case class_match (lines ! i) of
        Some c \<Rightarrow> \<lparr>class_markers = class_lookback lines i, function_markers = {},
                   current_class = Some c\<rparr>
      | None \<Rightarrow> loc)"

definition py_marker_step :: "string \<Rightarrow> py_locals \<Rightarrow> py_locals" where
  "py_marker_step line loc =
     (if startswith ''@pytest.mark.'' (strip line)
      then (case marker_search line of
              Some t \<Rightarrow> loc\<lparr>function_markers := insert t (function_markers loc)\<rparr>
            | None \<Rightarrow> loc)
      else loc)"

definition py_test_id :: "string \<Rightarrow> string option \<Rightarrow> string \<Rightarrow> string" where
  \<comment> \<open>\<^verbatim>\<open>f"{file_path.relative_to(self.project_root)}::{current_class or ''}{test_name}"\<close>\<close>
  "py_test_id rp cls test_name =
     rp @ ''::'' @ (case cls of None \<Rightarrow> [] | Some c \<Rightarrow> c) @ test_name"

definition py_test_step ::
  "src_file \<Rightarrow> string \<Rightarrow> py_locals \<times> monitor \<Rightarrow> py_error + py_locals \<times> monitor" where
  "py_test_step f line st =
     (case test_match line of
        None \<Rightarrow> Inr st
      | Some test_name \<Rightarrow>
          (case rel_path f of
             None \<Rightarrow> Inl ValueError
           | Some rp \<Rightarrow>
               (let loc = fst st;
                    test_id = py_test_id rp (current_class loc) test_name;
                    effective_markers = class_markers loc \<union> function_markers loc
                in Inr (loc\<lparr>function_markers := {}\<rparr>,
                        add_test test_id effective_markers (snd st)))))"

definition py_step ::
  "src_file \<Rightarrow> string list \<Rightarrow> nat \<Rightarrow> py_locals \<times> monitor \<Rightarrow> py_error + py_locals \<times> monitor" where
  \<comment> \<open>the body of \<^verbatim>\<open>for i, line in enumerate(lines)\<close>\<close>
  "py_step f lines i st =
     py_test_step f (lines ! i)
       (py_marker_step (lines ! i) (py_class_step lines i (fst st)), snd st)"

fun py_loop ::
  "src_file \<Rightarrow> string list \<Rightarrow> nat list \<Rightarrow> py_locals \<times> monitor
     \<Rightarrow> (py_locals \<times> monitor) \<times> py_error option" where
  \<comment> \<open>the loop over the line numbers; an exception ends it, and the monitor keeps what
      was added before\<close>
  "py_loop f lines [] st = (st, None)"
| "py_loop f lines (i # is) st =
     (case py_step f lines i st of
        Inl e \<Rightarrow> (st, Some e)
      | Inr st' \<Rightarrow> py_loop f lines is st')"

definition py_init :: py_locals where
  "py_init = \<lparr>class_markers = {}, function_markers = {}, current_class = None\<rparr>"

definition parse_python_test_file :: "src_file \<Rightarrow> monitor \<Rightarrow> monitor \<times> warning list" where
  \<comment> \<open>\<^verbatim>\<open>_parse_python_test_file\<close>\<close>
  "parse_python_test_file f m =
     (case read_text f of
        Inl e \<Rightarrow> (m, [Could_not_parse (path f) e])
      | Inr content \<Rightarrow>
          (let lines = split_nl content in
           case py_loop f lines [0 ..< length lines] (py_init, m) of
             (st, None) \<Rightarrow> (snd st, [])
           | (st, Some e) \<Rightarrow> (snd st, [Could_not_parse (path f) e])))"

subsection \<open>Regular expression scans over a whole file\<close>

fun finditer :: "(string \<Rightarrow> ('a \<times> nat) option) \<Rightarrow> nat \<Rightarrow> nat \<Rightarrow> string \<Rightarrow> (nat \<times> 'a) list" where
  \<comment> \<open>\<^verbatim>\<open>pattern.finditer(content)\<close> for a pattern that matches no empty text: the matches
      from left to right, each with its start and its group, the search resuming where
      the previous match ended. \<open>mt\<close> matches the pattern at the start of a text and gives
      the group and the length of the match; \<open>skip\<close> counts the characters still covered
      by the previous match.\<close>
  "finditer mt pos skip [] = []"
| "finditer mt pos skip (c # cs) =
     (if skip > 0 then finditer mt (pos + 1) (skip - 1) cs
      else (case mt (c # cs) of
              Some (g, n) \<Rightarrow> (pos, g) # finditer mt (pos + 1) (n - 1) cs
            | None \<Rightarrow> finditer mt (pos + 1) 0 cs))"

fun match_loop ::
  "src_file \<Rightarrow> (nat \<times> string \<Rightarrow> tier set) \<Rightarrow> (nat \<times> string) list \<Rightarrow> monitor
     \<Rightarrow> monitor \<times> py_error option" where
  \<comment> \<open>\<^verbatim>\<open>for match in test_pattern.finditer(content)\<close>: the test identifier is built (this
      raises when the path is not under the project root), added to \<^verbatim>\<open>all_tests\<close> and to
      the sets of the tiers found for the match\<close>
  "match_loop f tiers_of [] m = (m, None)"
| "match_loop f tiers_of (mt # mts) m =
     (case rel_path f of
        None \<Rightarrow> (m, Some ValueError)
      | Some rp \<Rightarrow> match_loop f tiers_of mts (add_test (rp @ ''::'' @ snd mt) (tiers_of mt) m))"

definition parse_with ::
  "(string \<Rightarrow> (nat \<times> string) list) \<Rightarrow> (string \<Rightarrow> nat \<times> string \<Rightarrow> tier set) \<Rightarrow> src_file \<Rightarrow> monitor
     \<Rightarrow> monitor \<times> warning list" where
  \<comment> \<open>the frame shared by the three extractors below: read the file, loop over the
      matches, and turn an exception into a warning\<close>
  "parse_with matches tiers_of f m =
     (case read_text f of
        Inl e \<Rightarrow> (m, [Could_not_parse (path f) e])
      | Inr content \<Rightarrow>
          (case match_loop f (tiers_of content) (matches content) m of
             (m', None) \<Rightarrow> (m', [])
           | (m', Some e) \<Rightarrow> (m', [Could_not_parse (path f) e])))"

subsection \<open>Convention B: the JavaScript extractor\<close>

definition lazy_quoted :: "string \<Rightarrow> (string \<times> nat) option" where
  \<comment> \<open>\<^verbatim>\<open>(.+?)['\"]\<close> at the start of the text: the group and the length matched. The first
      character is any character but a line feed, then the group extends up to the next
      quote, which has to come before the next line feed.\<close>
  "lazy_quoted s =
     (case s of
        [] \<Rightarrow> None
      | c # cs \<Rightarrow>
          if c = CHR 0x0A then None
          else (let b = takeWhile (\<lambda>x. \<not> is_quote x \<and> x \<noteq> CHR 0x0A) cs
                in case drop (length b) cs of
                     [] \<Rightarrow> None
                   | q # _ \<Rightarrow> if is_quote q then Some (c # b, length b + 2) else None))"

definition js_test_at :: "string \<Rightarrow> (string \<times> nat) option" where
  \<comment> \<open>\<^verbatim>\<open>(?:test|it)\(['\"](.+?)['\"]\<close> at the start of the text\<close>
  "js_test_at s =
     (let k = (if startswith ''test('' s then Some 5
               else if startswith ''it('' s then Some 3 else None)
      in case k of
           None \<Rightarrow> None
         | Some k \<Rightarrow>
             (case drop k s of
                [] \<Rightarrow> None
              | q # body \<Rightarrow>
                  if is_quote q
                  then (case lazy_quoted body of
                          Some (test_name, n) \<Rightarrow> Some (test_name, k + 1 + n)
                        | None \<Rightarrow> None)
                  else None))"

fun first_some :: "('a \<Rightarrow> 'b option) \<Rightarrow> 'a list \<Rightarrow> 'b option" where
  "first_some g [] = None"
| "first_some g (x # xs) = (case g x of Some y \<Rightarrow> Some y | None \<Rightarrow> first_some g xs)"

definition describe_tail :: "string \<Rightarrow> nat option" where
  \<comment> \<open>\<^verbatim>\<open>\s*(.+?)['\"]\<close> at the start of the text, the length matched: \<^verbatim>\<open>\s*\<close> first takes
      all the white space there is and gives it back one character at a time\<close>
  "describe_tail s =
     (let n = length (takeWhile is_space s)
      in first_some (\<lambda>k. map_option (\<lambda>r. k + snd r) (lazy_quoted (drop k s))) (rev [0 ..< Suc n]))"

definition describe_at :: "string \<Rightarrow> (string \<times> nat) option" where
  \<comment> \<open>\<^verbatim>\<open>describe\(['\"](\w+):\s*(.+?)['\"]\<close> at the start of the text, with group 1\<close>
  "describe_at s =
     (if startswith ''describe('' s
      then (case drop 9 s of
              [] \<Rightarrow> None
            | q # r \<Rightarrow>
                if is_quote q
                then (let w = takeWhile is_word r; r2 = drop (length w) r
                      in if w \<noteq> [] \<and> startswith '':'' r2
                         then (case describe_tail (drop 1 r2) of
                                 Some n \<Rightarrow> Some (w, 9 + 1 + length w + 1 + n)
                               | None \<Rightarrow> None)
                         else None)
                else None)
      else None)"

definition tier_of_name :: "string \<Rightarrow> tier option" where
  \<comment> \<open>\<^verbatim>\<open>category in self.tests_by_marker\<close>\<close>
  "tier_of_name s =
     (if s = ''unit'' then Some Unit
      else if s = ''integration'' then Some Integration
      else if s = ''e2e'' then Some E2e
      else None)"

definition js_current_category :: "string \<Rightarrow> tier option" where
  \<comment> \<open>\<^verbatim>\<open>current_category\<close> after the loop
      \<^verbatim>\<open>for match in describe_pattern.finditer(content)\<close>, which ends before the loop over
      the tests begins\<close>
  "js_current_category content =
     fold (\<lambda>mt current_category.
             (case tier_of_name (lower (snd mt)) of
                Some t \<Rightarrow> Some t
              | None \<Rightarrow> current_category))
       (finditer describe_at 0 0 content) None"

definition js_tiers :: "string \<Rightarrow> nat \<times> string \<Rightarrow> tier set" where
  \<comment> \<open>\<^verbatim>\<open>if current_category: self.tests_by_marker[current_category].add(test_id)\<close>\<close>
  "js_tiers content mt = (case js_current_category content of None \<Rightarrow> {} | Some t \<Rightarrow> {t})"

definition parse_javascript_test_file :: "src_file \<Rightarrow> monitor \<Rightarrow> monitor \<times> warning list" where
  \<comment> \<open>\<^verbatim>\<open>_parse_javascript_test_file\<close>\<close>
  "parse_javascript_test_file = parse_with (finditer js_test_at 0 0) js_tiers"

subsection \<open>Conventions C and D: the Go and Rust extractors\<close>

definition go_test_at :: "string \<Rightarrow> (string \<times> nat) option" where
  \<comment> \<open>\<^verbatim>\<open>func (Test\w+)\(\<close> at the start of the text\<close>
  "go_test_at s =
     (if startswith ''func Test'' s
      then (let w = takeWhile is_word (drop 9 s)
            in if w \<noteq> [] \<and> startswith ''('' (drop (9 + length w) s)
               then Some (''Test'' @ w, 9 + length w + 1)
               else None)
      else None)"

definition go_line_tier :: "string \<Rightarrow> tier option" where
  \<comment> \<open>the \<^verbatim>\<open>if\<close>/\<^verbatim>\<open>elif\<close> chain on one line of \<^verbatim>\<open>lines_before\<close>\<close>
  "go_line_tier line =
     (if contains ''// +build unit'' line \<or> contains ''//go:build unit'' line then Some Unit
      else if contains ''// +build integration'' line \<or> contains ''//go:build integration'' line
      then Some Integration
      else if contains ''// +build e2e'' line \<or> contains ''//go:build e2e'' line then Some E2e
      else None)"

definition lines_before :: "string \<Rightarrow> nat \<Rightarrow> string list" where
  \<comment> \<open>\<^verbatim>\<open>content[:pos].split("\n")[-5:]\<close>\<close>
  "lines_before content pos = last_n 5 (split_nl (take pos content))"

definition window_tiers :: "(string \<Rightarrow> tier option) \<Rightarrow> string \<Rightarrow> nat \<times> string \<Rightarrow> tier set" where
  \<comment> \<open>\<^verbatim>\<open>for line in lines_before\<close>: the tiers whose set the test is added to\<close>
  "window_tiers line_tier content mt =
     fold (\<lambda>line s. case line_tier line of Some t \<Rightarrow> insert t s | None \<Rightarrow> s)
       (lines_before content (fst mt)) {}"

definition parse_go_test_file :: "src_file \<Rightarrow> monitor \<Rightarrow> monitor \<times> warning list" where
  \<comment> \<open>\<^verbatim>\<open>_parse_go_test_file\<close>\<close>
  "parse_go_test_file = parse_with (finditer go_test_at 0 0) (window_tiers go_line_tier)"

definition rust_test_at :: "string \<Rightarrow> (string \<times> nat) option" where
  \<comment> \<open>\<^verbatim>\<open>#\[test\]\s*fn (\w+)\<close> at the start of the text\<close>
  "rust_test_at s =
     (if startswith ''#[test]'' s
      then (let sp = takeWhile is_space (drop 7 s);
                r = drop (7 + length sp) s
            in if startswith ''fn '' r
               then (let w = takeWhile is_word (drop 3 r)
                     in if w \<noteq> [] then Some (w, 7 + length sp + 3 + length w) else None)
               else None)
      else None)"

definition rust_line_tier :: "string \<Rightarrow> tier option" where
  \<comment> \<open>the \<^verbatim>\<open>if\<close>/\<^verbatim>\<open>elif\<close> chain on one line of \<^verbatim>\<open>lines_before\<close>\<close>
  "rust_line_tier line =
     (if contains ''// unit'' (lower line) then Some Unit
      else if contains ''// integration'' (lower line) then Some Integration
      else if contains ''// e2e'' (lower line) then Some E2e
      else None)"

definition parse_rust_test_file :: "src_file \<Rightarrow> monitor \<Rightarrow> monitor \<times> warning list" where
  \<comment> \<open>\<^verbatim>\<open>_parse_rust_test_file\<close>\<close>
  "parse_rust_test_file = parse_with (finditer rust_test_at 0 0) (window_tiers rust_line_tier)"

subsection \<open>The collector\<close>

datatype language = Python | JavaScript | Go | Rust

definition parse_test_file :: "language \<Rightarrow> src_file \<Rightarrow> monitor \<Rightarrow> monitor \<times> warning list" where
  "parse_test_file lang =
     (case lang of
        Python \<Rightarrow> parse_python_test_file
      | JavaScript \<Rightarrow> parse_javascript_test_file
      | Go \<Rightarrow> parse_go_test_file
      | Rust \<Rightarrow> parse_rust_test_file)"



subsection \<open>The marker validator\<close>

datatype violation =
    Missing_marker nat string
    \<comment> \<open>\<^verbatim>\<open>f"Line {i}: {location} - Missing pyramid marker (needs ...)"\<close>\<close>
  | File_not_found string \<comment> \<open>\<^verbatim>\<open>f"File not found: {file_path}"\<close>\<close>
  | Error_reading py_error \<comment> \<open>\<^verbatim>\<open>f"Error reading file: {e}"\<close>\<close>

record validator =
  violations :: "string \<rightharpoonup> violation list"
  total_tests_checked :: nat
  total_violations :: nat

definition init_validator :: validator where
  "init_validator = \<lparr>violations = Map.empty, total_tests_checked = 0, total_violations = 0\<rparr>"

record v_locals =
  v_current_class :: "string option"
  v_class_markers :: "tier set"
  pending_markers :: "tier set"
  v_violations :: "violation list"

definition has_marker :: "string \<Rightarrow> tier \<Rightarrow> bool" where
  \<comment> \<open>\<^verbatim>\<open>f"@pytest.mark.{marker}" in line\<close>\<close>
  "has_marker line marker = contains (''@pytest.mark.'' @ marker_name marker) line"

definition add_markers_of :: "string \<Rightarrow> tier set \<Rightarrow> tier set" where
  \<comment> \<open>\<^verbatim>\<open>for marker in self.PYRAMID_MARKERS: if f"@pytest.mark.{marker}" in line: s.add(marker)\<close>\<close>
  "add_markers_of line s =
     fold (\<lambda>marker acc. if has_marker line marker then insert marker acc else acc) all_tiers s"

definition v_class_lookback :: "string list \<Rightarrow> nat \<Rightarrow> tier set" where
  \<comment> \<open>\<^verbatim>\<open>for j in range(max(0, i - 11), i): marker_line = lines[j - 1] if j > 0 else ""\<close>,
      with \<open>i\<close> counting lines from 1\<close>
  "v_class_lookback lines i =
     fold (\<lambda>j cm. add_markers_of (if j > 0 then lines ! (j - 1) else []) cm)
       [i - 11 ..< i] {}"

definition location :: "string option \<Rightarrow> string \<Rightarrow> string" where
  \<comment> \<open>\<^verbatim>\<open>f"{current_class}::{test_name}" if current_class else test_name\<close>\<close>
  "location cls test_name =
     (case cls of None \<Rightarrow> test_name
      | Some c \<Rightarrow> if c = [] then test_name else c @ ''::'' @ test_name)"

definition v_step :: "string list \<Rightarrow> nat \<Rightarrow> v_locals \<times> validator \<Rightarrow> v_locals \<times> validator" where
  \<comment> \<open>the body of \<^verbatim>\<open>for i, line in enumerate(lines, 1)\<close>\<close>
  "v_step lines i st =
     (let line = lines ! (i - 1); loc = fst st; v = snd st in
      case class_match line of
        Some c \<Rightarrow>
          (loc\<lparr>v_current_class := Some c, v_class_markers := v_class_lookback lines i,
               pending_markers := {}\<rparr>, v)
      | None \<Rightarrow>
          (let loc1 = (if startswith ''@pytest.mark.'' (strip line)
                       then loc\<lparr>pending_markers := add_markers_of line (pending_markers loc)\<rparr>
                       else loc)
           in case test_match line of
                None \<Rightarrow> (loc1, v)
              | Some test_name \<Rightarrow>
                  (let v1 = v\<lparr>total_tests_checked := total_tests_checked v + 1\<rparr>;
                       effective_markers = pending_markers loc1 \<union> v_class_markers loc1
                   in if effective_markers = {}
                      then (loc1\<lparr>v_violations := v_violations loc1 @
                                   [Missing_marker i (location (v_current_class loc1) test_name)],
                                 pending_markers := {}\<rparr>,
                            v1\<lparr>total_violations := total_violations v1 + 1\<rparr>)
                      else (loc1\<lparr>pending_markers := {}\<rparr>, v1))))"

definition v_init :: v_locals where
  "v_init = \<lparr>v_current_class = None, v_class_markers = {}, pending_markers = {},
            v_violations = []\<rparr>"

definition validate_file :: "src_file \<Rightarrow> validator \<Rightarrow> (bool \<times> violation list) \<times> validator" where
  "validate_file f v =
     (case data f of
        Missing \<Rightarrow> ((False, [File_not_found (path f)]), v)
      | Unreadable e \<Rightarrow> ((False, [Error_reading e]), v)
      | Readable content \<Rightarrow>
          (let lines = split_nl content;
               st = fold (v_step lines) [1 ..< length lines + 1] (v_init, v);
               vs = v_violations (fst st)
           in ((length vs = 0, vs), snd st)))"

definition violations_key :: "src_file \<Rightarrow> string" where
  \<comment> \<open>\<^verbatim>\<open>str(rel_path)\<close> with \<^verbatim>\<open>rel_path = file_path\<close> when \<^verbatim>\<open>relative_to\<close> raises\<close>
  "violations_key f = (case rel_path f of Some r \<Rightarrow> r | None \<Rightarrow> path f)"

fun validate_files_loop :: "src_file list \<Rightarrow> bool \<times> validator \<Rightarrow> bool \<times> validator" where
  "validate_files_loop [] st = st"
| "validate_files_loop (f # fs) st =
     (let r = validate_file f (snd st);
          is_valid = fst (fst r); vs = snd (fst r); v = snd r
      in validate_files_loop fs
           (if \<not> is_valid
            then (False, v\<lparr>violations := (violations v)(violations_key f \<mapsto> vs)\<rparr>)
            else (fst st, v)))"

definition validate_files :: "src_file list \<Rightarrow> validator \<Rightarrow> bool \<times> validator" where
  "validate_files files v = validate_files_loop files (True, v)"

record json_report =
  valid :: bool
  report_tests_checked :: nat
  report_violations :: nat
  report_by_file :: "string \<rightharpoonup> violation list"

definition get_json_report :: "validator \<Rightarrow> json_report" where
  "get_json_report v =
     \<lparr>valid = (violations v = Map.empty),
      report_tests_checked = total_tests_checked v,
      report_violations = total_violations v,
      report_by_file = violations v\<rparr>"

subsection \<open>The formulas of the specification\<close>

definition spec_uncategorized_pct :: "monitor \<Rightarrow> real" where
  \<comment> \<open>the specification's uncategorized percentage: the tests of \<^verbatim>\<open>all_tests\<close> outside
      the union of the tier sets, as a percentage, and 0 when there is no test\<close>
  "spec_uncategorized_pct m =
     (if all_tests m = {} then 0
      else 100 * (real (card (all_tests m))
                   - real (card (\<Union>t\<in>set all_tiers. tests_by_marker m t)))
             / real (card (all_tests m)))"

definition spec_score :: "monitor \<Rightarrow> (tier \<Rightarrow> real) \<Rightarrow> real" where
  \<comment> \<open>the specification's score: 10 minus a tenth of each tier's deviation minus a fifth
      of the uncategorized percentage, clamped\<close>
  "spec_score m d =
     max 0 (min 10 (10 - (\<Sum>t\<leftarrow>all_tiers. \<bar>d t - targets m t\<bar> * (1 / 10))
                       - spec_uncategorized_pct m * (2 / 10)))"

definition preceding_lines :: "nat \<Rightarrow> string \<Rightarrow> nat \<Rightarrow> string list" where
  \<comment> \<open>the specification's window: the \<open>n\<close> lines immediately above the line that holds
      position \<open>pos\<close>\<close>
  "preceding_lines n content pos = last_n n (butlast (split_nl (take pos content)))"

definition line_prefix :: "string \<Rightarrow> nat \<Rightarrow> string" where
  \<comment> \<open>the part before position \<open>pos\<close> of the line that holds it\<close>
  "line_prefix content pos = last (split_nl (take pos content))"

subsection \<open>Example files\<close>

definition mixed_file :: src_file where
  \<comment> \<open>one test without a marker, one test with a class marker and a function marker\<close>
  "mixed_file =
     \<lparr>path = ''/repo/tests/test_mixed.py'', rel_path = Some ''tests/test_mixed.py'',
      data = Readable (join_nl
        [''class TestA:'',
         ''    def test_b(self):'',
         ''        pass'',
         ''@pytest.mark.integration'',
         ''class TestB:'',
         ''    @pytest.mark.unit'',
         ''    def test_a(self):'',
         ''        pass''])\<rparr>"

definition mixed_monitor :: monitor where
  "mixed_monitor = fst (parse_python_test_file mixed_file (init_monitor DEFAULT_TARGETS 5.5))"

definition half_half :: "tier \<Rightarrow> real" where
  "half_half t = (case t of Unit \<Rightarrow> 50 | Integration \<Rightarrow> 50 | E2e \<Rightarrow> 0)"

definition scenario_file :: src_file where
  \<comment> \<open>a class with an \<^verbatim>\<open>integration\<close> marker and two tests, the first marked \<^verbatim>\<open>unit\<close>\<close>
  "scenario_file =
     \<lparr>path = ''/repo/tests/test_orders.py'', rel_path = Some ''tests/test_orders.py'',
      data = Readable (join_nl
        [''import pytest'',
         [],
         ''@pytest.mark.integration'',
         ''class TestOrders:'',
         ''    @pytest.mark.unit'',
         ''    def test_total(self):'',
         ''        assert total([1, 2]) == 3'',
         [],
         ''    def test_store(self):'',
         ''        assert store(1)''])\<rparr>"

definition far_marker_file :: src_file where
  \<comment> \<open>a marker on the eleventh line above the class declaration\<close>
  "far_marker_file =
     \<lparr>path = ''/repo/tests/test_far.py'', rel_path = Some ''tests/test_far.py'',
      data = Readable (join_nl
        [''@pytest.mark.unit'',
         ''# 1'', ''# 2'', ''# 3'', ''# 4'', ''# 5'', ''# 6'', ''# 7'', ''# 8'', ''# 9'', ''# 10'',
         ''class TestFar:'',
         ''    def test_a(self):'',
         ''        pass''])\<rparr>"

definition two_blocks_file :: src_file where
  \<comment> \<open>a test before any block, a \<^verbatim>\<open>unit\<close> block with a test, an \<^verbatim>\<open>e2e\<close> block with a test\<close>
  "two_blocks_file =
     \<lparr>path = ''/repo/tests/cart.test.js'', rel_path = Some ''tests/cart.test.js'',
      data = Readable (join_nl
        [''it('loads', () => {})'',
         ''describe('unit: cart', () => {'',
         ''  it('adds', () => {})'',
         ''})'',
         ''describe('e2e: checkout', () => {'',
         ''  it('pays', () => {})'',
         ''})''])\<rparr>"

definition go_far_file :: src_file where
  \<comment> \<open>a build constraint on the fifth line above the test function\<close>
  "go_far_file =
     \<lparr>path = ''/repo/cart_test.go'', rel_path = Some ''cart_test.go'',
      data = Readable (join_nl
        [''//go:build unit'',
         [],
         ''package cart'',
         [],
         ''// TestAdd checks Add'',
         ''func TestAdd(t *testing.T) {''])\<rparr>"

definition go_near_file :: src_file where
  \<comment> \<open>a build constraint on the fourth line above the test function\<close>
  "go_near_file =
     \<lparr>path = ''/repo/cart_test.go'', rel_path = Some ''cart_test.go'',
      data = Readable (join_nl
        [[],
         ''//go:build unit'',
         ''package cart'',
         [],
         ''// TestAdd checks Add'',
         ''func TestAdd(t *testing.T) {''])\<rparr>"

definition rust_near_file :: src_file where
  \<comment> \<open>a comment on the third line above the test attribute\<close>
  "rust_near_file =
     \<lparr>path = ''/repo/src/store.rs'', rel_path = Some ''src/store.rs'',
      data = Readable (join_nl
        [''mod tests {'',
         ''    // integration'',
         ''    // checks the store'',
         [],
         ''    #[test]'',
         ''    fn stores() {''])\<rparr>"

definition content_of :: "src_file \<Rightarrow> string" where
  "content_of f = (case data f of Readable c \<Rightarrow> c | _ \<Rightarrow> [])"

definition unmarked_file :: src_file where
  \<comment> \<open>one test, no marker\<close>
  "unmarked_file =
     \<lparr>path = ''/repo/tests/test_cart.py'', rel_path = Some ''tests/test_cart.py'',
      data = Readable (join_nl
        [''import pytest'',
         [],
         ''class TestCart:'',
         ''    def test_total(self):'',
         ''        assert True''])\<rparr>"

definition indent_file :: src_file where
  \<comment> \<open>test functions at indentations 0, 4 and 8\<close>
  "indent_file =
     \<lparr>path = ''/repo/tests/test_indent.py'', rel_path = Some ''tests/test_indent.py'',
      data = Readable (join_nl
        [''@pytest.mark.unit'',
         ''def test_top():'',
         ''    pass'',
         ''class TestX:'',
         ''    def test_in(self):'',
         ''        def test_deep():'',
         ''            pass''])\<rparr>"



definition v_clean :: "v_locals \<times> validator \<Rightarrow> bool" where
  \<comment> \<open>the validator's loop has seen no marker and no test so far\<close>
  "v_clean st = (v_class_markers (fst st) = {} \<and> pending_markers (fst st) = {} \<and>
     v_violations (fst st) = [])"

definition inert :: "string \<Rightarrow> bool" where
  \<comment> \<open>a line that is no class declaration and no test and holds no marker\<close>
  "inert l = (class_match l = None \<and> test_match l = None \<and> marker_search l = None)"

definition class_after :: "string list \<Rightarrow> nat \<Rightarrow> string option" where
  \<comment> \<open>\<^verbatim>\<open>current_class\<close> of the Python extractor once the class check has run on the first
      \<open>k\<close> lines\<close>
  "class_after lines k =
     fold (\<lambda>j cur. case class_match (lines ! j) of Some c \<Rightarrow> Some c | None \<Rightarrow> cur)
       [0 ..< k] None"



section \<open>Properties\<close>

lemma penalty_loop_all_tiers:
  "penalty_loop tg d all_tiers s =
     s - \<bar>d Unit - tg Unit\<bar> / 10 - \<bar>d Integration - tg Integration\<bar> / 10 - \<bar>d E2e - tg E2e\<bar> / 10"
  by (simp add: all_tiers_def Let_def)

text \<open>
  C8. With \<^verbatim>\<open>all_tests\<close> empty, \<^verbatim>\<open>calculate_distribution\<close> returns (without raising)
  the distribution that is 0 at every tier, and the uncategorized percentage of
  \<^verbatim>\<open>calculate_score\<close> is 0 (without raising): neither computation divides by zero.
\<close>

theorem C8_empty_registry_zero:
  "all_tests m = {} \<Longrightarrow>
     calculate_distribution m = Inr (\<lambda>marker. 0) \<and> uncategorized_pct m = Inr 0"
  by (simp add: calculate_distribution_def uncategorized_pct_def Let_def)

theorem C8_empty_registry_zero_witness:
  "all_tests (init_monitor DEFAULT_TARGETS 5.5) = {} \<and>
   calculate_distribution (init_monitor DEFAULT_TARGETS 5.5) = Inr (\<lambda>marker. 0) \<and>
   uncategorized_pct (init_monitor DEFAULT_TARGETS 5.5) = Inr 0"
  using C8_empty_registry_zero [of "init_monitor DEFAULT_TARGETS 5.5"]
  by (simp add: init_monitor_def)


lemma uncategorized_pct_returns: "\<exists>p. uncategorized_pct m = Inr p \<and> 0 \<le> p"
  by (auto simp: uncategorized_pct_def py_truediv_def Let_def)

lemma calculate_score_eq:
  "uncategorized_pct m = Inr p \<Longrightarrow>
   calculate_score m d =
     Inr (max 0 (min 10 (penalty_loop (targets m) d all_tiers 10 - p * (2 / 10))))"
  by (simp add: calculate_score_def)

text \<open>
  C9. With the monitor (its targets and its sets, hence the uncategorized percentage)
  fixed, let two distributions have the same deviation from the target at every tier
  but \<open>t\<close>, where the second one deviates at least as much as the first. Then
  \<^verbatim>\<open>calculate_score\<close> returns on both, and its result on the second is not greater
  than on the first, the clamp to the interval from 0 to 10 included.
\<close>

theorem C9_score_monotone:
  assumes others: "\<forall>s. s \<noteq> t \<longrightarrow> \<bar>d' s - targets m s\<bar> = \<bar>d s - targets m s\<bar>"
    and more: "\<bar>d t - targets m t\<bar> \<le> \<bar>d' t - targets m t\<bar>"
  shows "\<exists>x y. calculate_score m d = Inr x \<and> calculate_score m d' = Inr y \<and> y \<le> x"
proof -
  obtain p where p: "uncategorized_pct m = Inr p"
    using uncategorized_pct_returns by blast
  let ?raw = "\<lambda>e. penalty_loop (targets m) e all_tiers 10 - p * (2 / 10)"
  have "?raw d' \<le> ?raw d"
  proof (cases t)
    case Unit
    then have "\<bar>d' Integration - targets m Integration\<bar> = \<bar>d Integration - targets m Integration\<bar>"
      and "\<bar>d' E2e - targets m E2e\<bar> = \<bar>d E2e - targets m E2e\<bar>"
      using others by simp_all
    with more Unit show ?thesis by (simp add: penalty_loop_all_tiers)
  next
    case Integration
    then have "\<bar>d' Unit - targets m Unit\<bar> = \<bar>d Unit - targets m Unit\<bar>"
      and "\<bar>d' E2e - targets m E2e\<bar> = \<bar>d E2e - targets m E2e\<bar>"
      using others by simp_all
    with more Integration show ?thesis by (simp add: penalty_loop_all_tiers)
  next
    case E2e
    then have "\<bar>d' Unit - targets m Unit\<bar> = \<bar>d Unit - targets m Unit\<bar>"
      and "\<bar>d' Integration - targets m Integration\<bar> = \<bar>d Integration - targets m Integration\<bar>"
      using others by simp_all
    with more E2e show ?thesis by (simp add: penalty_loop_all_tiers)
  qed
  then have "max 0 (min 10 (?raw d')) \<le> max 0 (min 10 (?raw d))"
    by linarith
  then show ?thesis
    by (simp add: calculate_score_eq [OF p])
qed

theorem C9_score_monotone_witness:
  "\<bar>(DEFAULT_TARGETS(Unit := 80)) Integration
      - targets (init_monitor DEFAULT_TARGETS 5.5) Integration\<bar> =
   \<bar>DEFAULT_TARGETS Integration - targets (init_monitor DEFAULT_TARGETS 5.5) Integration\<bar> \<and>
   \<bar>(DEFAULT_TARGETS(Unit := 80)) E2e - targets (init_monitor DEFAULT_TARGETS 5.5) E2e\<bar> =
   \<bar>DEFAULT_TARGETS E2e - targets (init_monitor DEFAULT_TARGETS 5.5) E2e\<bar> \<and>
   \<bar>DEFAULT_TARGETS Unit - targets (init_monitor DEFAULT_TARGETS 5.5) Unit\<bar>
     \<le> \<bar>(DEFAULT_TARGETS(Unit := 80)) Unit - targets (init_monitor DEFAULT_TARGETS 5.5) Unit\<bar> \<and>
   calculate_score (init_monitor DEFAULT_TARGETS 5.5) DEFAULT_TARGETS = Inr 10 \<and>
   calculate_score (init_monitor DEFAULT_TARGETS 5.5) (DEFAULT_TARGETS(Unit := 80)) = Inr 9"
proof -
  let ?m = "init_monitor DEFAULT_TARGETS 5.5"
  have h1: "\<forall>s. s \<noteq> Unit \<longrightarrow>
      \<bar>(DEFAULT_TARGETS(Unit := 80)) s - targets ?m s\<bar> = \<bar>DEFAULT_TARGETS s - targets ?m s\<bar>"
    by simp
  have h2: "\<bar>DEFAULT_TARGETS Unit - targets ?m Unit\<bar>
      \<le> \<bar>(DEFAULT_TARGETS(Unit := 80)) Unit - targets ?m Unit\<bar>"
    by (simp add: init_monitor_def)
  have p: "uncategorized_pct ?m = Inr 0"
    by (simp add: uncategorized_pct_def init_monitor_def Let_def)
  have s1: "calculate_score ?m DEFAULT_TARGETS = Inr 10"
    unfolding calculate_score_eq [OF p]
    by (simp add: penalty_loop_all_tiers init_monitor_def DEFAULT_TARGETS_def)
  have s2: "calculate_score ?m (DEFAULT_TARGETS(Unit := 80)) = Inr 9"
    unfolding calculate_score_eq [OF p]
    by (simp add: penalty_loop_all_tiers init_monitor_def DEFAULT_TARGETS_def)
  from C9_score_monotone [OF h1 h2] h2 s1 s2 show ?thesis by simp
qed

subsection \<open>The score on a registry with a doubly marked test\<close>

lemma mixed_all_tests:
  "all_tests mixed_monitor =
     {''tests/test_mixed.py::TestAtest_b'', ''tests/test_mixed.py::TestBtest_a''}"
  by code_simp

lemma mixed_unit: "tests_by_marker mixed_monitor Unit = {''tests/test_mixed.py::TestBtest_a''}"
  by code_simp

lemma mixed_integration:
  "tests_by_marker mixed_monitor Integration = {''tests/test_mixed.py::TestBtest_a''}"
  by code_simp

lemma mixed_e2e: "tests_by_marker mixed_monitor E2e = {}"
  by code_simp

lemma mixed_targets: "targets mixed_monitor t = DEFAULT_TARGETS t"
  by (cases t; code_simp)

lemma mixed_distribution: "calculate_distribution mixed_monitor = Inr half_half"
  by (auto simp: calculate_distribution_def mixed_all_tests mixed_unit mixed_integration
      mixed_e2e Let_def all_tiers_def py_truediv_def half_half_def fun_eq_iff split: tier.splits)

lemma mixed_uncategorized_pct: "uncategorized_pct mixed_monitor = Inr 0"
  by (simp add: uncategorized_pct_def categorized_count_def all_tiers_def mixed_all_tests
      mixed_unit mixed_integration mixed_e2e)

lemma mixed_spec_uncategorized_pct: "spec_uncategorized_pct mixed_monitor = 50"
  by (simp add: spec_uncategorized_pct_def all_tiers_def mixed_all_tests
      mixed_unit mixed_integration mixed_e2e)

text \<open>
  C1. The file \<open>mixed_file\<close> has two tests: one without any marker, and one that carries
  \<^verbatim>\<open>integration\<close> from its class and \<^verbatim>\<open>unit\<close> from its own decorator. With the default
  targets the distribution is 50, 50, 0 and \<^verbatim>\<open>calculate_score\<close> returns 4: it counts the
  categorized tests by adding up the sizes of the tier sets, which is 2, so that no test
  seems uncategorized and nothing is subtracted for the unmarked test. The
  specification's formula takes the union of the tier sets, has 50 percent of the tests
  uncategorized and gives 0; \<^verbatim>\<open>get_missing_markers_count\<close>, which takes the union, reports
  one uncategorized test for the same registry.
\<close>

theorem C1_score_counts_overlap_twice:
  "calculate_distribution mixed_monitor = Inr half_half \<and>
   calculate_score mixed_monitor half_half = Inr 4 \<and>
   spec_score mixed_monitor half_half = 0 \<and>
   get_missing_markers_count mixed_monitor = 1"
proof -
  have "calculate_score mixed_monitor half_half = Inr 4"
    unfolding calculate_score_eq [OF mixed_uncategorized_pct]
    by (simp add: penalty_loop_all_tiers mixed_targets DEFAULT_TARGETS_def half_half_def)
  moreover have "spec_score mixed_monitor half_half = 0"
    by (simp add: spec_score_def mixed_spec_uncategorized_pct all_tiers_def mixed_targets
        DEFAULT_TARGETS_def half_half_def)
  moreover have "get_missing_markers_count mixed_monitor = 1"
    by (simp add: get_missing_markers_count_def all_tiers_def mixed_all_tests
        mixed_unit mixed_integration mixed_e2e)
  ultimately show ?thesis
    using mixed_distribution by simp
qed

text \<open>
  Where no test carries two tiers (the tier sets are pairwise disjoint subsets of a
  finite \<^verbatim>\<open>all_tests\<close>), the sum of the sizes is the size of the union and
  \<^verbatim>\<open>calculate_score\<close> returns the specification's score.
\<close>

lemma score_agrees_without_overlap:
  assumes fin: "finite (all_tests m)"
    and sub: "\<forall>t. tests_by_marker m t \<subseteq> all_tests m"
    and disj: "\<forall>s t. s \<noteq> t \<longrightarrow> tests_by_marker m s \<inter> tests_by_marker m t = {}"
  shows "calculate_score m d = Inr (spec_score m d)"
proof -
  let ?U = "tests_by_marker m Unit" and ?I = "tests_by_marker m Integration"
    and ?E = "tests_by_marker m E2e"
  have f: "finite ?U" "finite ?I" "finite ?E"
    using fin sub by (meson finite_subset)+
  have d: "?U \<inter> ?I = {}" "?U \<inter> ?E = {}" "?I \<inter> ?E = {}"
    using disj by simp_all
  have un: "(\<Union>t\<in>set all_tiers. tests_by_marker m t) = ?U \<union> ?I \<union> ?E"
    by (auto simp: all_tiers_def)
  have "card (?U \<union> ?I \<union> ?E) = card ?U + card ?I + card ?E"
    using f d by (simp add: card_Un_disjoint Int_Un_distrib2)
  then have cat: "categorized_count m = int (card (?U \<union> ?I \<union> ?E))"
    by (simp add: categorized_count_def all_tiers_def)
  have le: "card (?U \<union> ?I \<union> ?E) \<le> card (all_tests m)"
    using fin sub by (intro card_mono) auto
  have pct: "uncategorized_pct m = Inr (spec_uncategorized_pct m)"
  proof (cases "all_tests m = {}")
    case True
    then show ?thesis
      by (simp add: uncategorized_pct_def spec_uncategorized_pct_def Let_def)
  next
    case False
    then have pos: "card (all_tests m) > 0"
      using fin by (simp add: card_gt_0_iff)
    show ?thesis
    proof (cases "card (?U \<union> ?I \<union> ?E) = card (all_tests m)")
      case True
      with False show ?thesis
        by (simp add: uncategorized_pct_def spec_uncategorized_pct_def Let_def cat un)
    next
      case ne: False
      with le have lt: "card (?U \<union> ?I \<union> ?E) < card (all_tests m)" by simp
      then have "int (card (all_tests m)) - int (card (?U \<union> ?I \<union> ?E)) > 0" by simp
      with False pos lt show ?thesis
        by (simp add: uncategorized_pct_def spec_uncategorized_pct_def Let_def cat un
            py_truediv_def of_nat_diff)
    qed
  qed
  show ?thesis
    unfolding calculate_score_eq [OF pct]
    by (simp add: spec_score_def penalty_loop_all_tiers all_tiers_def algebra_simps)
qed

subsection \<open>The extractors on the example files\<close>

text \<open>
  C3. On \<open>far_marker_file\<close> the only marker stands eleven lines above the class
  declaration. The monitor looks at the ten lines above the declaration, finds no class
  marker and leaves the test of the class without a tier. The validator looks at eleven
  lines, takes \<^verbatim>\<open>unit\<close> as a class marker and reports no violation: the two components
  disagree on this test.
\<close>

theorem C3_validator_looks_back_eleven_lines:
  "all_tests (fst (parse_python_test_file far_marker_file (init_monitor DEFAULT_TARGETS 5.5))) =
     {''tests/test_far.py::TestFartest_a''} \<and>
   tests_by_marker (fst (parse_python_test_file far_marker_file (init_monitor DEFAULT_TARGETS 5.5)))
       Unit = {} \<and>
   tests_by_marker (fst (parse_python_test_file far_marker_file (init_monitor DEFAULT_TARGETS 5.5)))
       Integration = {} \<and>
   tests_by_marker (fst (parse_python_test_file far_marker_file (init_monitor DEFAULT_TARGETS 5.5)))
       E2e = {} \<and>
   get_missing_markers_count
     (fst (parse_python_test_file far_marker_file (init_monitor DEFAULT_TARGETS 5.5))) = 1 \<and>
   class_lookback (split_nl (content_of far_marker_file)) 11 = {} \<and>
   v_class_lookback (split_nl (content_of far_marker_file)) 12 = {Unit} \<and>
   fst (validate_file far_marker_file init_validator) = (True, []) \<and>
   total_tests_checked (snd (validate_file far_marker_file init_validator)) = 1 \<and>
   total_violations (snd (validate_file far_marker_file init_validator)) = 0"
  by code_simp

text \<open>
  C2. In \<open>two_blocks_file\<close> the test \<^verbatim>\<open>loads\<close> comes before any block, \<^verbatim>\<open>adds\<close> comes after the
  block labelled \<^verbatim>\<open>unit:\<close> and before the one labelled \<^verbatim>\<open>e2e:\<close>, and \<^verbatim>\<open>pays\<close> comes after
  the latter. The extractor first runs through all the blocks, which leaves \<^verbatim>\<open>e2e\<close> as the
  current category, and only then through the tests: all three tests are put in the
  \<^verbatim>\<open>e2e\<close> set and none in the \<^verbatim>\<open>unit\<close> set.
\<close>

theorem C2_last_block_labels_every_test:
  "finditer describe_at 0 0 (content_of two_blocks_file) = [(22, ''unit''), (79, ''e2e'')] \<and>
   finditer js_test_at 0 0 (content_of two_blocks_file) =
     [(0, ''loads''), (55, ''adds''), (115, ''pays'')] \<and>
   tests_by_marker (fst (parse_javascript_test_file two_blocks_file
       (init_monitor DEFAULT_TARGETS 5.5))) E2e =
     {''tests/cart.test.js::loads'', ''tests/cart.test.js::adds'', ''tests/cart.test.js::pays''} \<and>
   tests_by_marker (fst (parse_javascript_test_file two_blocks_file
       (init_monitor DEFAULT_TARGETS 5.5))) Unit = {} \<and>
   tests_by_marker (fst (parse_javascript_test_file two_blocks_file
       (init_monitor DEFAULT_TARGETS 5.5))) Integration = {}"
  by code_simp

text \<open>
  C4. In \<open>go_far_file\<close> the build constraint \<^verbatim>\<open>//go:build unit\<close> is one of the five lines
  immediately above the declaration of \<^verbatim>\<open>TestAdd\<close>, it is a \<^verbatim>\<open>unit\<close> keyword for the
  extractor, and the test gets no tier: the five pieces that the extractor takes from
  \<^verbatim>\<open>content[:pos].split("\n")[-5:]\<close> are the four lines above the declaration and the
  empty text in front of \<^verbatim>\<open>func\<close> on its own line.
\<close>

theorem C4_fifth_line_above_gets_no_tier:
  "finditer go_test_at 0 0 (content_of go_far_file) = [(53, ''TestAdd'')] \<and>
   ''//go:build unit'' \<in> set (preceding_lines 5 (content_of go_far_file) 53) \<and>
   go_line_tier ''//go:build unit'' = Some Unit \<and>
   lines_before (content_of go_far_file) 53 =
     [[], ''package cart'', [], ''// TestAdd checks Add'', []] \<and>
   all_tests (fst (parse_go_test_file go_far_file (init_monitor DEFAULT_TARGETS 5.5))) =
     {''cart_test.go::TestAdd''} \<and>
   tests_by_marker (fst (parse_go_test_file go_far_file (init_monitor DEFAULT_TARGETS 5.5))) Unit
     = {}"
  by code_simp

subsection \<open>The loops over matches and the look-back window\<close>

lemma add_test_all [simp]: "all_tests (add_test tid ms m) = insert tid (all_tests m)"
  by (simp add: add_test_def)

lemma add_test_tbm [simp]:
  "tests_by_marker (add_test tid ms m) t = (if t \<in> ms then insert tid (tests_by_marker m t) else tests_by_marker m t)"
  by (simp add: add_test_def)



lemma match_loop_rel_all:
  "rel_path f = Some rp \<Longrightarrow>
   all_tests (fst (match_loop f tiers_of mts m)) = all_tests m \<union> (\<lambda>mt. rp @ ''::'' @ snd mt) ` set mts"
  by (induction mts arbitrary: m) auto

lemma match_loop_rel_tbm:
  "rel_path f = Some rp \<Longrightarrow>
   tests_by_marker (fst (match_loop f tiers_of mts m)) t =
     tests_by_marker m t \<union> (\<lambda>mt. rp @ ''::'' @ snd mt) ` {mt \<in> set mts. t \<in> tiers_of mt}"
  by (induction mts arbitrary: m) auto


lemma parse_with_unreadable:
  "read_text f = Inl e \<Longrightarrow> parse_with matches tiers_of f m = (m, [Could_not_parse (path f) e])"
  by (simp add: parse_with_def)

lemma window_tiers_iff:
  "t \<in> window_tiers line_tier content mt \<longleftrightarrow>
     (\<exists>l \<in> set (lines_before content (fst mt)). line_tier l = Some t)"
proof -
  have "\<And>s. t \<in> fold (\<lambda>line s. case line_tier line of Some t \<Rightarrow> insert t s | None \<Rightarrow> s) ls s
      \<longleftrightarrow> t \<in> s \<or> (\<exists>l \<in> set ls. line_tier l = Some t)" for ls
    by (induction ls) (auto split: option.splits)
  then show ?thesis by (simp add: window_tiers_def)
qed

lemma lines_before_decomp:
  "lines_before content pos = preceding_lines 4 content pos @ [line_prefix content pos]"
proof -
  have ne: "split_nl s \<noteq> []" for s
    by (induction s) (auto split: list.splits)
  have "last_n 5 xs = last_n 4 (butlast xs) @ [last xs]" if "xs \<noteq> []" for xs :: "string list"
  proof -
    from that obtain ys y where xs: "xs = ys @ [y]"
      by (metis append_butlast_last_id)
    show ?thesis
      by (simp add: xs last_n_def Suc_diff_le)
  qed
  then show ?thesis
    by (simp add: lines_before_def preceding_lines_def line_prefix_def ne)
qed

subsection \<open>Failing files\<close>


lemma py_step_no_rel:
  "rel_path f = None \<Longrightarrow> py_step f lines i st = Inr st' \<Longrightarrow> snd st' = snd st"
  by (auto simp: py_step_def py_test_step_def Let_def split: option.splits)

lemma py_step_all_tests:
  "py_step f lines i st = Inr st' \<Longrightarrow> x \<in> all_tests (snd st') \<Longrightarrow>
   x \<in> all_tests (snd st) \<or>
   (\<exists>test_name rp cls. test_match (lines ! i) = Some test_name \<and> rel_path f = Some rp \<and>
      x = py_test_id rp cls test_name)"
  by (auto simp: py_step_def py_test_step_def Let_def split: option.splits)


lemma py_loop_no_rel:
  "rel_path f = None \<Longrightarrow> snd (fst (py_loop f lines is st)) = snd st"
  by (induction "is" arbitrary: st) (auto split: sum.splits dest: py_step_no_rel)

lemma py_loop_all_tests:
  "x \<in> all_tests (snd (fst (py_loop f lines is st))) \<Longrightarrow>
   x \<in> all_tests (snd st) \<or>
   (\<exists>i \<in> set is. \<exists>test_name rp cls. test_match (lines ! i) = Some test_name \<and>
      rel_path f = Some rp \<and> x = py_test_id rp cls test_name)"
proof (induction "is" arbitrary: st)
  case Nil
  then show ?case by simp
next
  case (Cons i "is")
  show ?case
  proof (cases "py_step f lines i st")
    case (Inl e)
    with Cons.prems show ?thesis by simp
  next
    case (Inr st')
    with Cons.prems have "x \<in> all_tests (snd (fst (py_loop f lines is st')))" by simp
    from Cons.IH [OF this] py_step_all_tests [OF Inr] show ?thesis by auto
  qed
qed


lemma parse_python_unreadable:
  "read_text f = Inl e \<Longrightarrow> parse_python_test_file f m = (m, [Could_not_parse (path f) e])"
  by (simp add: parse_python_test_file_def)


lemma parse_unreadable:
  "read_text f = Inl e \<Longrightarrow> parse_test_file lang f m = (m, [Could_not_parse (path f) e])"
  by (cases lang)
    (simp_all add: parse_test_file_def parse_javascript_test_file_def parse_go_test_file_def
      parse_rust_test_file_def parse_python_unreadable parse_with_unreadable)




subsection \<open>The validator's loop\<close>

lemma test_match_startswith:
  "test_match l = Some n \<Longrightarrow> startswith ''    def test_'' l \<and>
     n = ''test_'' @ takeWhile is_word (drop 13 l) \<and> takeWhile is_word (drop 13 l) \<noteq> []"
  by (auto simp: test_match_def Let_def split: if_splits)

lemma test_match_not_class:
  "test_match l = Some n \<Longrightarrow> class_match l = None"
  by (cases l) (auto simp: test_match_def class_match_def startswith_def split: if_splits)

lemma test_match_other_indent:
  assumes "k \<noteq> 4"
  shows "test_match (replicate k CHR '' '' @ ''def '' @ rest) = None"
proof -
  consider "k = 0" | "k = 1" | "k = 2" | "k = 3" | "k \<ge> 5"
    using assms by linarith
  then have "\<not> startswith ''    def test_'' (replicate k CHR '' '' @ ''def '' @ rest)"
  proof cases
    case 5
    then obtain j where "k = 5 + j"
      using le_Suc_ex by blast
    then show ?thesis
      by (simp add: startswith_def numeral_eq_Suc)
  qed (simp_all add: startswith_def numeral_eq_Suc)
  then show ?thesis
    by (simp add: test_match_def)
qed

lemma v_step_violations [simp]: "violations (snd (v_step lines i st)) = violations (snd st)"
  by (auto simp: v_step_def Let_def split: option.splits)

lemma v_step_locals: "fst (v_step lines i (loc, v)) = fst (v_step lines i (loc, v'))"
  by (auto simp: v_step_def Let_def split: option.splits)

lemma v_step_checked:
  "total_tests_checked (snd (v_step lines i st)) =
     total_tests_checked (snd st) + (if test_match (lines ! (i - 1)) \<noteq> None then 1 else 0)"
  by (auto simp: v_step_def Let_def test_match_not_class split: option.splits)

lemma v_step_v_violations:
  "v_violations (fst (v_step lines i st)) = v_violations (fst st) \<or>
   (\<exists>test_name cls. test_match (lines ! (i - 1)) = Some test_name \<and>
      v_violations (fst (v_step lines i st)) =
        v_violations (fst st) @ [Missing_marker i (location cls test_name)])"
  by (auto simp: v_step_def Let_def split: option.splits)

lemma v_step_total_violations:
  "total_violations (snd (v_step lines i st)) + length (v_violations (fst st)) =
     total_violations (snd st) + length (v_violations (fst (v_step lines i st)))"
  by (auto simp: v_step_def Let_def split: option.splits)

lemma fold_v_step_violations [simp]:
  "violations (snd (fold (v_step lines) is st)) = violations (snd st)"
  by (induction "is" arbitrary: st) simp_all

lemma fold_v_step_locals:
  "fst (fold (v_step lines) is (loc, v)) = fst (fold (v_step lines) is (loc, v'))"
proof (induction "is" arbitrary: loc v v')
  case Nil
  then show ?case by simp
next
  case (Cons i "is")
  obtain l1 v1 where a: "v_step lines i (loc, v) = (l1, v1)" by (cases "v_step lines i (loc, v)")
  obtain l2 v2 where b: "v_step lines i (loc, v') = (l2, v2)" by (cases "v_step lines i (loc, v')")
  have "l1 = l2" using v_step_locals [of lines i loc v v'] a b by simp
  then show ?case using Cons.IH [of l1 v1 v2] a b by simp
qed

lemma fold_v_step_checked:
  "total_tests_checked (snd (fold (v_step lines) is st)) =
     total_tests_checked (snd st) + length (filter (\<lambda>i. test_match (lines ! (i - 1)) \<noteq> None) is)"
  by (induction "is" arbitrary: st) (simp_all add: v_step_checked)

lemma fold_v_step_total_violations:
  "total_violations (snd (fold (v_step lines) is st)) + length (v_violations (fst st)) =
     total_violations (snd st) + length (v_violations (fst (fold (v_step lines) is st)))"
proof (induction "is" arbitrary: st)
  case Nil
  then show ?case by simp
next
  case (Cons i "is")
  from Cons.IH [of "v_step lines i st"] v_step_total_violations [of lines i st]
  show ?case by simp
qed

lemma fold_v_step_v_violations:
  "Missing_marker i loc \<in> set (v_violations (fst (fold (v_step lines) is st))) \<Longrightarrow>
   Missing_marker i loc \<in> set (v_violations (fst st)) \<or>
   (i \<in> set is \<and> (\<exists>test_name cls. test_match (lines ! (i - 1)) = Some test_name \<and>
       loc = location cls test_name))"
proof (induction "is" arbitrary: st)
  case Nil
  then show ?case by simp
next
  case (Cons j "is")
  from Cons.IH [of "v_step lines j st"] Cons.prems
  have "Missing_marker i loc \<in> set (v_violations (fst (v_step lines j st))) \<or>
   (i \<in> set is \<and> (\<exists>test_name cls. test_match (lines ! (i - 1)) = Some test_name \<and>
       loc = location cls test_name))" by simp
  then show ?case
    using v_step_v_violations [of lines j st] by auto
qed

lemma filter_shifted_index:
  "length (filter (\<lambda>i. P (xs ! (i - 1))) [1 ..< length xs + 1]) = length (filter P xs)"
proof -
  have "[1 ..< length xs + 1] = map Suc [0 ..< length xs]"
    by (simp add: map_Suc_upt)
  then have "map (\<lambda>i. xs ! (i - 1)) [1 ..< length xs + 1] = map (\<lambda>i. xs ! i) [0 ..< length xs]"
    by (simp add: comp_def del: upt_Suc)
  then have "map (\<lambda>i. xs ! (i - 1)) [1 ..< length xs + 1] = xs"
    by (simp add: map_nth del: upt_Suc)
  then have "filter P xs = filter P (map (\<lambda>i. xs ! (i - 1)) [1 ..< length xs + 1])"
    by simp
  also have "\<dots> = map (\<lambda>i. xs ! (i - 1)) (filter (\<lambda>i. P (xs ! (i - 1))) [1 ..< length xs + 1])"
    by (simp add: filter_map comp_def)
  finally show ?thesis by (metis length_map)
qed

lemma validate_file_violations [simp]: "violations (snd (validate_file f v)) = violations v"
  by (simp add: validate_file_def Let_def split: file_data.splits)

lemma validate_file_result: "fst (validate_file f v) = fst (validate_file f v')"
  using fold_v_step_locals [of _ _ v_init v v']
  by (simp add: validate_file_def Let_def split: file_data.splits)

lemma validate_file_valid_iff:
  "fst (fst (validate_file f v)) \<longleftrightarrow> snd (fst (validate_file f v)) = []"
  by (simp add: validate_file_def Let_def split: file_data.splits)

lemma validate_files_loop_violations:
  "violations (snd (validate_files_loop fs st)) = Map.empty \<longleftrightarrow>
     violations (snd st) = Map.empty \<and>
     (\<forall>f \<in> set fs. snd (fst (validate_file f init_validator)) = [])"
proof (induction fs arbitrary: st)
  case Nil
  then show ?case by simp
next
  case (Cons f fs)
  have same: "fst (validate_file f (snd st)) = fst (validate_file f init_validator)"
    by (rule validate_file_result)
  show ?case
  proof (cases "fst (fst (validate_file f (snd st)))")
    case True
    then have "snd (fst (validate_file f init_validator)) = []"
      using validate_file_valid_iff [of f "snd st"] same by simp
    with True show ?thesis
      by (simp add: Cons.IH Let_def)
  next
    case False
    let ?r = "validate_file f (snd st)"
    let ?st' = "(False, (snd ?r)\<lparr>violations := (violations (snd ?r))(violations_key f \<mapsto> snd (fst ?r))\<rparr>)"
    have step: "validate_files_loop (f # fs) st = validate_files_loop fs ?st'"
      using False by (simp add: Let_def)
    have "violations (snd ?st') \<noteq> Map.empty"
      by simp
    then have ne: "violations (snd (validate_files_loop fs ?st')) \<noteq> Map.empty"
      using Cons.IH [of ?st'] by blast
    have "snd (fst (validate_file f init_validator)) \<noteq> []"
      using False validate_file_valid_iff [of f "snd st"] same by simp
    with ne show ?thesis
      unfolding step by simp
  qed
qed

lemma validate_files_loop_all_valid:
  "fst (validate_files_loop fs st) \<longleftrightarrow>
     fst st \<and> (\<forall>f \<in> set fs. snd (fst (validate_file f init_validator)) = [])"
proof (induction fs arbitrary: st)
  case Nil
  then show ?case by simp
next
  case (Cons f fs)
  have same: "fst (validate_file f (snd st)) = fst (validate_file f init_validator)"
    by (rule validate_file_result)
  show ?case
    using validate_file_valid_iff [of f "snd st"] same
    by (cases "fst (fst (validate_file f (snd st)))") (simp_all add: Cons.IH Let_def)
qed

lemma valid_iff_no_violations:
  "valid (get_json_report (snd (validate_files files init_validator))) \<longleftrightarrow>
     (\<forall>f \<in> set files. snd (fst (validate_file f init_validator)) = [])"
  by (simp add: get_json_report_def validate_files_def validate_files_loop_violations
      init_validator_def)

subsection \<open>A single test without a marker\<close>

lemma add_markers_of_union: "add_markers_of l s = s \<union> add_markers_of l {}"
  by (auto simp: add_markers_of_def all_tiers_def)

lemma add_markers_of_none: "add_markers_of l {} = {} \<Longrightarrow> add_markers_of l s = s"
  using add_markers_of_union [of l s] by simp

lemma add_markers_of_empty_line [simp]: "add_markers_of [] s = s"
  by (simp add: add_markers_of_def all_tiers_def has_marker_def marker_name_def)

lemma v_class_lookback_none:
  assumes "\<forall>j < i - 1. add_markers_of (lines ! j) {} = {}"
  shows "v_class_lookback lines i = {}"
proof -
  have "fold (\<lambda>j cm. add_markers_of (if j > 0 then lines ! (j - 1) else []) cm) js s = s"
    if "\<forall>j \<in> set js. j < i" for js s
    using that
  proof (induction js arbitrary: s)
    case Nil
    then show ?case by simp
  next
    case (Cons j js)
    have "add_markers_of (if j > 0 then lines ! (j - 1) else []) s = s"
    proof (cases "j > 0")
      case True
      with Cons.prems have "j - 1 < i - 1" by auto
      with assms True show ?thesis by (simp add: add_markers_of_none)
    next
      case False
      then show ?thesis by simp
    qed
    with Cons show ?case by simp
  qed
  then show ?thesis
    by (simp add: v_class_lookback_def)
qed

lemma v_step_clean:
  assumes "v_clean st"
    and "\<forall>j < i. add_markers_of (lines ! j) {} = {}"
    and "test_match (lines ! (i - 1)) = None"
    and "0 < i"
  shows "v_clean (v_step lines i st)"
proof -
  have "v_class_lookback lines i = {}"
    using assms(2) by (intro v_class_lookback_none) auto
  moreover have "add_markers_of (lines ! (i - 1)) {} = {}"
    using assms(2,4) by simp
  ultimately show ?thesis
    using assms(1,3)
    by (auto simp: v_clean_def v_step_def Let_def add_markers_of_none split: option.splits)
qed

lemma fold_v_step_clean:
  assumes "\<forall>i \<in> set is. (\<forall>j < i. add_markers_of (lines ! j) {} = {}) \<and>
      test_match (lines ! (i - 1)) = None \<and> 0 < i"
    and "v_clean st"
  shows "v_clean (fold (v_step lines) is st)"
  using assms by (induction "is" arbitrary: st) (simp_all add: v_step_clean)

lemma v_step_flags:
  assumes "v_clean st"
    and "add_markers_of (lines ! (i - 1)) {} = {}"
    and "test_match (lines ! (i - 1)) = Some test_name"
  shows "v_violations (fst (v_step lines i st)) =
     [Missing_marker i (location (v_current_class (fst st)) test_name)]"
  using assms test_match_not_class [OF assms(3)]
  by (auto simp: v_clean_def v_step_def Let_def add_markers_of_none)

lemma v_step_keeps:
  "test_match (lines ! (i - 1)) = None \<Longrightarrow>
     v_violations (fst (v_step lines i st)) = v_violations (fst st)"
  by (auto simp: v_step_def Let_def split: option.splits)

lemma fold_v_step_keeps:
  "\<forall>i \<in> set is. test_match (lines ! (i - 1)) = None \<Longrightarrow>
     v_violations (fst (fold (v_step lines) is st)) = v_violations (fst st)"
  by (induction "is" arbitrary: st) (simp_all add: v_step_keeps)

lemma single_unmarked_test:
  assumes lines: "lines = pre @ tline # post"
    and test: "test_match tline = Some test_name"
    and others: "\<forall>l \<in> set (pre @ post). test_match l = None"
    and unmarked: "\<forall>l \<in> set (pre @ [tline]). add_markers_of l {} = {}"
  shows "\<exists>cls. v_violations (fst (fold (v_step lines) [1 ..< length lines + 1] (v_init, v))) =
     [Missing_marker (length pre + 1) (location cls test_name)]"
proof -
  let ?k = "length pre"
  have idx: "[1 ..< length lines + 1] = [1 ..< ?k + 1] @ (?k + 1) # [?k + 2 ..< length lines + 1]"
  proof -
    have "[1 ..< length lines + 1] = [1 ..< ?k + 1] @ [?k + 1 ..< length lines + 1]"
      using upt_add_eq_append [of 1 "?k + 1" "length lines - ?k"] by (simp add: lines)
    moreover have "?k + 1 < length lines + 1"
      by (simp add: lines)
    then have "[?k + 1 ..< length lines + 1] = (?k + 1) # [Suc (?k + 1) ..< length lines + 1]"
      by (rule upt_conv_Cons)
    then have "[?k + 1 ..< length lines + 1] = (?k + 1) # [?k + 2 ..< length lines + 1]"
      by (simp only: Suc_eq_plus1 add.assoc one_add_one)
    ultimately show ?thesis by simp
  qed
  have pre_line: "lines ! j \<in> set pre" if "j < ?k" for j
    using that by (simp add: lines nth_append)
  have at_k: "lines ! ?k = tline"
    by (simp add: lines)
  have post_line: "lines ! j \<in> set post" if "?k < j" "j < length lines" for j
  proof -
    from that have "lines ! j = post ! (j - ?k - 1)" and "j - ?k - 1 < length post"
      by (auto simp: lines nth_append nth_Cons')
    then show ?thesis by simp
  qed
  have nomark: "add_markers_of (lines ! j) {} = {}" if "j \<le> ?k" for j
    using that unmarked pre_line [of j] at_k by (cases "j = ?k") auto
  let ?s1 = "fold (v_step lines) [1 ..< ?k + 1] (v_init, v)"
  have "v_clean ?s1"
  proof (rule fold_v_step_clean)
    show "v_clean (v_init, v)"
      by (simp add: v_clean_def v_init_def)
    show "\<forall>i \<in> set [1 ..< ?k + 1]. (\<forall>j < i. add_markers_of (lines ! j) {} = {}) \<and>
        test_match (lines ! (i - 1)) = None \<and> 0 < i"
    proof
      fix i assume "i \<in> set [1 ..< ?k + 1]"
      then have i: "1 \<le> i" "i \<le> ?k" by auto
      then have "lines ! (i - 1) \<in> set pre" by (intro pre_line) simp
      with others have "test_match (lines ! (i - 1)) = None" by simp
      moreover have "\<forall>j < i. add_markers_of (lines ! j) {} = {}"
        using i nomark by simp
      ultimately show "(\<forall>j < i. add_markers_of (lines ! j) {} = {}) \<and>
        test_match (lines ! (i - 1)) = None \<and> 0 < i" using i by simp
    qed
  qed
  then have flagged: "v_violations (fst (v_step lines (?k + 1) ?s1)) =
      [Missing_marker (?k + 1) (location (v_current_class (fst ?s1)) test_name)]"
    using nomark [of ?k] test at_k by (intro v_step_flags) simp_all
  have rest: "\<forall>i \<in> set [?k + 2 ..< length lines + 1]. test_match (lines ! (i - 1)) = None"
  proof
    fix i assume "i \<in> set [?k + 2 ..< length lines + 1]"
    then have "?k < i - 1" "i - 1 < length lines" by auto
    then have "lines ! (i - 1) \<in> set post" by (rule post_line)
    with others show "test_match (lines ! (i - 1)) = None" by simp
  qed
  have "fold (v_step lines) [1 ..< length lines + 1] (v_init, v) =
      fold (v_step lines) [?k + 2 ..< length lines + 1] (v_step lines (?k + 1) ?s1)"
    by (simp only: idx fold_append fold_Cons comp_apply)
  then have "v_violations (fst (fold (v_step lines) [1 ..< length lines + 1] (v_init, v))) =
      v_violations (fst (v_step lines (?k + 1) ?s1))"
    using fold_v_step_keeps [OF rest] by simp
  with flagged show ?thesis
    by (intro exI [of _ "v_current_class (fst ?s1)"]) simp
qed

lemma validate_file_total_violations:
  "total_violations (snd (validate_file f v)) =
     total_violations v +
     (case data f of Readable c \<Rightarrow> length (snd (fst (validate_file f v))) | _ \<Rightarrow> 0)"
  using fold_v_step_total_violations [of _ _ "(v_init, v)"]
  by (simp add: validate_file_def Let_def v_init_def split: file_data.splits)

subsection \<open>The aggregate result of the validator\<close>

lemma validate_file_total_violations_init:
  "total_violations (snd (validate_file f v)) =
     total_violations v +
     (case data f of
        Readable c \<Rightarrow> length (snd (fst (validate_file f init_validator)))
      | _ \<Rightarrow> 0)"
  using validate_file_total_violations [of f v] validate_file_result [of f v init_validator]
  by (cases "data f") simp_all

lemma validate_files_loop_total_violations:
  "total_violations (snd (validate_files_loop fs st)) =
     total_violations (snd st) +
     (\<Sum>f\<leftarrow>fs. case data f of
                Readable c \<Rightarrow> length (snd (fst (validate_file f init_validator)))
              | _ \<Rightarrow> 0)"
proof (induction fs arbitrary: st)
  case Nil
  then show ?case by simp
next
  case (Cons f fs)
  show ?case
    by (simp add: Cons.IH Let_def validate_file_total_violations_init [of f "snd st"])
qed

lemma readable_valid_iff_total:
  assumes "\<forall>g \<in> set files. \<exists>c. data g = Readable c"
  shows "valid (get_json_report (snd (validate_files files init_validator))) \<longleftrightarrow>
     report_violations (get_json_report (snd (validate_files files init_validator))) = 0"
proof -
  have "(\<Sum>f\<leftarrow>files. case data f of
                Readable c \<Rightarrow> length (snd (fst (validate_file f init_validator)))
              | _ \<Rightarrow> 0) = 0 \<longleftrightarrow>
      (\<forall>g \<in> set files. snd (fst (validate_file g init_validator)) = [])"
    using assms by (induction files) auto
  then show ?thesis
    by (simp add: valid_iff_no_violations)
       (simp add: get_json_report_def validate_files_def validate_files_loop_total_violations
         init_validator_def)
qed

text \<open>
  C6. After \<^verbatim>\<open>validate_files\<close> on any list of files, the report's \<^verbatim>\<open>valid\<close> holds exactly
  when \<^verbatim>\<open>validate_file\<close> returns an empty violation list for every file; it is also the
  value that \<^verbatim>\<open>validate_files\<close> returns, and when all the files can be read it holds
  exactly when the count \<^verbatim>\<open>total_violations\<close> is 0. For a readable file with exactly one
  test line, where neither that line nor any line before it holds a marker, the
  violation list is the single entry with the number of that line (counted from 1) and
  a location made of the test's name, the count of violations goes up by one, and the
  report on that file is not valid.
\<close>

theorem C6_valid_iff_no_violation:
  "(valid (get_json_report (snd (validate_files files init_validator))) \<longleftrightarrow>
      (\<forall>g \<in> set files. snd (fst (validate_file g init_validator)) = [])) \<and>
   (fst (validate_files files init_validator) \<longleftrightarrow>
      valid (get_json_report (snd (validate_files files init_validator)))) \<and>
   ((\<forall>g \<in> set files. \<exists>c. data g = Readable c) \<longrightarrow>
      (valid (get_json_report (snd (validate_files files init_validator))) \<longleftrightarrow>
       report_violations (get_json_report (snd (validate_files files init_validator))) = 0)) \<and>
   (data f = Readable content \<and> split_nl content = pre @ tline # post \<and>
    test_match tline = Some test_name \<and>
    (\<forall>l \<in> set (pre @ post). test_match l = None) \<and>
    (\<forall>l \<in> set (pre @ [tline]). add_markers_of l {} = {}) \<longrightarrow>
      (\<exists>cls. fst (validate_file f v) =
         (False, [Missing_marker (length pre + 1) (location cls test_name)])) \<and>
      total_violations (snd (validate_file f v)) = total_violations v + 1 \<and>
      \<not> valid (get_json_report (snd (validate_files [f] init_validator))))"
proof -
  have a: "valid (get_json_report (snd (validate_files files init_validator))) \<longleftrightarrow>
      (\<forall>g \<in> set files. snd (fst (validate_file g init_validator)) = [])"
    by (rule valid_iff_no_violations)
  have b: "fst (validate_files files init_validator) \<longleftrightarrow>
      valid (get_json_report (snd (validate_files files init_validator)))"
    unfolding a by (simp add: validate_files_def validate_files_loop_all_valid)
  have c: "(\<forall>g \<in> set files. \<exists>c. data g = Readable c) \<longrightarrow>
      (valid (get_json_report (snd (validate_files files init_validator))) \<longleftrightarrow>
       report_violations (get_json_report (snd (validate_files files init_validator))) = 0)"
    using readable_valid_iff_total by blast
  have d: "(\<exists>cls. fst (validate_file f v) =
         (False, [Missing_marker (length pre + 1) (location cls test_name)])) \<and>
      total_violations (snd (validate_file f v)) = total_violations v + 1 \<and>
      \<not> valid (get_json_report (snd (validate_files [f] init_validator)))"
    if readable: "data f = Readable content"
      and lines: "split_nl content = pre @ tline # post"
      and test: "test_match tline = Some test_name"
      and others: "\<forall>l \<in> set (pre @ post). test_match l = None"
      and unmarked: "\<forall>l \<in> set (pre @ [tline]). add_markers_of l {} = {}"
  proof -
    have one: "\<exists>cls. snd (fst (validate_file f w)) =
        [Missing_marker (length pre + 1) (location cls test_name)]" for w
      using single_unmarked_test [OF lines test others unmarked, of w] readable
      by (simp add: validate_file_def Let_def del: upt_Suc)
    then obtain cls where cls: "snd (fst (validate_file f v)) =
        [Missing_marker (length pre + 1) (location cls test_name)]"
      by blast
    then have "fst (validate_file f v) =
        (False, [Missing_marker (length pre + 1) (location cls test_name)])"
      using validate_file_valid_iff [of f v] by (simp add: prod_eq_iff)
    moreover have "total_violations (snd (validate_file f v)) = total_violations v + 1"
      using validate_file_total_violations [of f v] readable cls by simp
    moreover have "\<not> valid (get_json_report (snd (validate_files [f] init_validator)))"
      using one [of init_validator] by (auto simp: valid_iff_no_violations)
    ultimately show ?thesis by blast
  qed
  from a b c d show ?thesis by blast
qed

theorem C6_valid_iff_no_violation_witness:
  "data unmarked_file = Readable (content_of unmarked_file) \<and>
   split_nl (content_of unmarked_file) =
     [''import pytest'', [], ''class TestCart:''] @ ''    def test_total(self):'' #
     [''        assert True''] \<and>
   test_match ''    def test_total(self):'' = Some ''test_total'' \<and>
   test_match ''import pytest'' = None \<and> test_match [] = None \<and>
   test_match ''class TestCart:'' = None \<and> test_match ''        assert True'' = None \<and>
   add_markers_of ''import pytest'' {} = {} \<and> add_markers_of [] {} = {} \<and>
   add_markers_of ''class TestCart:'' {} = {} \<and>
   add_markers_of ''    def test_total(self):'' {} = {} \<and>
   fst (validate_file unmarked_file init_validator) =
     (False, [Missing_marker 4 ''TestCart::test_total'']) \<and>
   total_violations (snd (validate_file unmarked_file init_validator)) = 1 \<and>
   \<not> valid (get_json_report (snd (validate_files [unmarked_file] init_validator)))"
proof -
  have h1: "data unmarked_file = Readable (content_of unmarked_file)"
    by (simp add: unmarked_file_def content_of_def)
  have h2: "split_nl (content_of unmarked_file) =
     [''import pytest'', [], ''class TestCart:''] @ ''    def test_total(self):'' #
     [''        assert True'']"
    by code_simp
  have h3: "test_match ''    def test_total(self):'' = Some ''test_total''"
    by code_simp
  have t: "test_match ''import pytest'' = None" "test_match [] = None"
    "test_match ''class TestCart:'' = None" "test_match ''        assert True'' = None"
    by code_simp+
  have u: "add_markers_of ''import pytest'' {} = {}" "add_markers_of [] {} = {}"
    "add_markers_of ''class TestCart:'' {} = {}"
    "add_markers_of ''    def test_total(self):'' {} = {}"
    by code_simp+
  have h4: "\<forall>l \<in> set ([''import pytest'', [], ''class TestCart:''] @ [''        assert True'']).
      test_match l = None"
    using t by simp
  have h5: "\<forall>l \<in> set ([''import pytest'', [], ''class TestCart:''] @ [''    def test_total(self):'']).
      add_markers_of l {} = {}"
    using u by simp
  have e: "fst (validate_file unmarked_file init_validator) =
     (False, [Missing_marker 4 ''TestCart::test_total''])"
    by code_simp
  have t0: "total_violations init_validator = 0"
    by (simp add: init_validator_def)
  from C6_valid_iff_no_violation [of "[unmarked_file]" unmarked_file "content_of unmarked_file"
      "[''import pytest'', [], ''class TestCart:'']" "''    def test_total(self):''"
      "[''        assert True'']" "''test_total''" init_validator] h1 h2 h3 h4 h5
  have "total_violations (snd (validate_file unmarked_file init_validator)) =
      total_violations init_validator + 1"
    and "\<not> valid (get_json_report (snd (validate_files [unmarked_file] init_validator)))"
    by blast+
  with h1 h2 h3 t u e t0 show ?thesis by simp
qed

subsection \<open>The Go and Rust windows\<close>

lemma parse_with_tbm:
  assumes "data f = Readable content" and "rel_path f = Some rp"
  shows "tests_by_marker (fst (parse_with (finditer mt 0 0) (window_tiers line_tier) f m)) t =
     tests_by_marker m t \<union>
     {rp @ ''::'' @ test_name | p test_name.
        (p, test_name) \<in> set (finditer mt 0 0 content) \<and>
        (\<exists>l \<in> set (lines_before content p). line_tier l = Some t)}"
proof -
  let ?mts = "finditer mt 0 0 content"
  let ?loop = "match_loop f (window_tiers line_tier content) ?mts m"
  have "fst (parse_with (finditer mt 0 0) (window_tiers line_tier) f m) = fst ?loop"
    using assms(1)
    by (simp add: parse_with_def read_text_def split: prod.splits option.splits)
  then have "tests_by_marker (fst (parse_with (finditer mt 0 0) (window_tiers line_tier) f m)) t =
      tests_by_marker m t \<union>
      (\<lambda>mt. rp @ ''::'' @ snd mt) ` {x \<in> set ?mts. t \<in> window_tiers line_tier content x}"
    by (simp add: match_loop_rel_tbm [OF assms(2)])
  also have "(\<lambda>mt. rp @ ''::'' @ snd mt) ` {x \<in> set ?mts. t \<in> window_tiers line_tier content x} =
      {rp @ ''::'' @ test_name | p test_name.
        (p, test_name) \<in> set ?mts \<and> (\<exists>l \<in> set (lines_before content p). line_tier l = Some t)}"
    by (force simp: window_tiers_iff)
  finally show ?thesis .
qed

text \<open>
  What the Go and the Rust extractor do for a readable file under the project root: a
  test is put in the set of tier \<open>t\<close> exactly when one of the pieces of
  \<^verbatim>\<open>content[:pos].split("\n")[-5:]\<close>, for a match of the test pattern with that test's
  name that starts at \<open>pos\<close>, has \<open>t\<close> as the result of the \<^verbatim>\<open>if\<close>/\<^verbatim>\<open>elif\<close> chain. These
  pieces are the four lines above the line of the match and the part of that line
  before the match.
\<close>

lemma window_is_four_lines_and_prefix:
  assumes "data f = Readable content" and "rel_path f = Some rp"
  shows "lines_before content pos = preceding_lines 4 content pos @ [line_prefix content pos] \<and>
    tests_by_marker (fst (parse_go_test_file f m)) t =
      tests_by_marker m t \<union>
      {rp @ ''::'' @ test_name | p test_name.
         (p, test_name) \<in> set (finditer go_test_at 0 0 content) \<and>
         (\<exists>l \<in> set (lines_before content p). go_line_tier l = Some t)} \<and>
    tests_by_marker (fst (parse_rust_test_file f m)) t =
      tests_by_marker m t \<union>
      {rp @ ''::'' @ test_name | p test_name.
         (p, test_name) \<in> set (finditer rust_test_at 0 0 content) \<and>
         (\<exists>l \<in> set (lines_before content p). rust_line_tier l = Some t)}"
  using parse_with_tbm [OF assms] lines_before_decomp
  by (simp add: parse_go_test_file_def parse_rust_test_file_def)

lemma window_on_near_files:
  "data go_near_file = Readable (content_of go_near_file) \<and>
   rel_path go_near_file = Some ''cart_test.go'' \<and>
   finditer go_test_at 0 0 (content_of go_near_file) = [(53, ''TestAdd'')] \<and>
   lines_before (content_of go_near_file) 53 =
     [''//go:build unit'', ''package cart'', [], ''// TestAdd checks Add'', []] \<and>
   lines_before (content_of go_near_file) 53 =
     preceding_lines 4 (content_of go_near_file) 53 @ [line_prefix (content_of go_near_file) 53] \<and>
   tests_by_marker (fst (parse_go_test_file go_near_file (init_monitor DEFAULT_TARGETS 5.5))) Unit =
     {''cart_test.go::TestAdd''} \<and>
   data rust_near_file = Readable (content_of rust_near_file) \<and>
   rel_path rust_near_file = Some ''src/store.rs'' \<and>
   tests_by_marker (fst (parse_rust_test_file rust_near_file (init_monitor DEFAULT_TARGETS 5.5)))
       Integration =
     {''src/store.rs::stores''}"
proof -
  have g1: "data go_near_file = Readable (content_of go_near_file)"
    by (simp add: go_near_file_def content_of_def)
  have g2: "rel_path go_near_file = Some ''cart_test.go''"
    by (simp add: go_near_file_def)
  have r1: "data rust_near_file = Readable (content_of rust_near_file)"
    by (simp add: rust_near_file_def content_of_def)
  have r2: "rel_path rust_near_file = Some ''src/store.rs''"
    by (simp add: rust_near_file_def)
  have gm: "finditer go_test_at 0 0 (content_of go_near_file) = [(53, ''TestAdd'')]"
    by code_simp
  have gl: "lines_before (content_of go_near_file) 53 =
     [''//go:build unit'', ''package cart'', [], ''// TestAdd checks Add'', []]"
    by code_simp
  have gt: "go_line_tier ''//go:build unit'' = Some Unit"
    by code_simp
  have rm: "finditer rust_test_at 0 0 (content_of rust_near_file) = [(60, ''stores'')]"
    by code_simp
  have rl: "lines_before (content_of rust_near_file) 60 =
     [''mod tests {'', ''    // integration'', ''    // checks the store'', [], ''    '']"
    by code_simp
  have rt: "rust_line_tier ''mod tests {'' = None" "rust_line_tier ''    // integration'' = Some Integration"
    "rust_line_tier ''    // checks the store'' = None" "rust_line_tier [] = None"
    "rust_line_tier ''    '' = None"
    by code_simp+
  have m0: "tests_by_marker (init_monitor tg ms) t = {}" for tg ms t
    by (simp add: init_monitor_def)
  from window_is_four_lines_and_prefix [OF g1 g2, of 53 "init_monitor DEFAULT_TARGETS 5.5" Unit]
  have a: "lines_before (content_of go_near_file) 53 =
     preceding_lines 4 (content_of go_near_file) 53 @ [line_prefix (content_of go_near_file) 53]"
    and b: "tests_by_marker (fst (parse_go_test_file go_near_file (init_monitor DEFAULT_TARGETS 5.5))) Unit =
     {''cart_test.go::TestAdd''}"
    by (auto simp: gm gl gt m0)
  from window_is_four_lines_and_prefix [OF r1 r2, of 60 "init_monitor DEFAULT_TARGETS 5.5" Integration]
  have c: "tests_by_marker (fst (parse_rust_test_file rust_near_file (init_monitor DEFAULT_TARGETS 5.5)))
       Integration = {''src/store.rs::stores''}"
    by (auto simp: rm rl rt m0)
  from g1 g2 gm gl a b r1 r2 c show ?thesis by simp
qed

subsection \<open>A class marker and a function marker\<close>

lemma py_loop_append:
  "py_loop f lines (is @ js) st =
     (case py_loop f lines is st of (st', None) \<Rightarrow> py_loop f lines js st' | (st', Some e) \<Rightarrow> (st', Some e))"
  by (induction "is" arbitrary: st) (auto split: sum.splits)

lemma py_step_inert: "inert (lines ! i) \<Longrightarrow> py_step f lines i st = Inr st"
  by (simp add: inert_def py_step_def py_class_step_def py_marker_step_def py_test_step_def)

lemma py_loop_inert:
  "\<forall>i \<in> set is. inert (lines ! i) \<Longrightarrow> py_loop f lines is st = (st, None)"
  by (induction "is" arbitrary: st) (simp_all add: py_step_inert)

lemma class_lookback_set:
  "class_lookback lines i = {t. \<exists>j. i - 10 \<le> j \<and> j < i \<and> marker_search (lines ! j) = Some t}"
proof -
  have "fold (\<lambda>j cm. case marker_search (lines ! j) of Some t \<Rightarrow> insert t cm | None \<Rightarrow> cm) js s =
      s \<union> {t. \<exists>j \<in> set js. marker_search (lines ! j) = Some t}" for js s
    by (induction js arbitrary: s) (auto split: option.splits)
  then show ?thesis
    by (auto simp: class_lookback_def)
qed

lemma strip_test_line:
  assumes "test_match l = Some n"
  shows "\<not> startswith ''@pytest.mark.'' (strip l)"
proof -
  from assms have "startswith ''    def test_'' l"
    by (simp add: test_match_def split: if_splits)
  then obtain rest where l: "l = ''    def test_'' @ rest"
    by (metis append_take_drop_id startswith_def)
  have sp: "is_space CHR '' ''" and d: "\<not> is_space CHR ''d''"
    by (simp_all add: is_space_def)
  have "dropWhile is_space l = CHR ''d'' # ''ef test_'' @ rest"
    by (simp add: l sp d)
  then have "rev (dropWhile is_space l) = rev (''ef test_'' @ rest) @ [CHR ''d'']"
    by simp
  then have "dropWhile is_space (rev (dropWhile is_space l)) =
      dropWhile is_space (rev (''ef test_'' @ rest)) @ [CHR ''d'']"
    using d dropWhile_append3 [of is_space "CHR ''d''" "rev (''ef test_'' @ rest)" "[]"]
    by simp
  then have "strip l = CHR ''d'' # rev (dropWhile is_space (rev (''ef test_'' @ rest)))"
    by (simp add: strip_def)
  then show ?thesis
    by (simp add: startswith_def)
qed

lemma py_step_test:
  assumes "test_match (lines ! i) = Some n" and "rel_path f = Some rp"
  shows "py_step f lines i (loc, m) =
     Inr (loc\<lparr>function_markers := {}\<rparr>,
          add_test (py_test_id rp (current_class loc) n)
            (class_markers loc \<union> function_markers loc) m)"
  using assms test_match_not_class [OF assms(1)] strip_test_line [OF assms(1)]
  by (simp add: py_step_def py_class_step_def py_marker_step_def py_test_step_def Let_def)

lemma py_step_class:
  assumes "class_match (lines ! i) = Some c" and "test_match (lines ! i) = None"
    and "\<not> startswith ''@pytest.mark.'' (strip (lines ! i))"
  shows "py_step f lines i (loc, m) =
     Inr (\<lparr>class_markers = class_lookback lines i, function_markers = {},
           current_class = Some c\<rparr>, m)"
  using assms
  by (simp add: py_step_def py_class_step_def py_marker_step_def py_test_step_def Let_def)

lemma strip_head:
  assumes "dropWhile is_space l = c # cs"
  shows "\<exists>r. strip l = c # r"
proof -
  have "\<not> is_space c"
    using assms hd_dropWhile [of is_space l] by auto
  then have "dropWhile is_space (rev cs @ [c]) = dropWhile is_space (rev cs) @ [c]"
    using dropWhile_append3 [of is_space c "rev cs" "[]"] by simp
  then show ?thesis
    by (simp add: strip_def assms)
qed

lemma strip_class_line:
  assumes "class_match l = Some c"
  shows "\<not> startswith ''@pytest.mark.'' (strip l)"
proof -
  from assms have "startswith ''class Test'' l"
    by (simp add: class_match_def split: if_splits)
  then obtain rest where l: "l = ''class Test'' @ rest"
    by (metis append_take_drop_id startswith_def)
  have "dropWhile is_space l = CHR ''c'' # ''lass Test'' @ rest"
    by (simp add: l is_space_def)
  from strip_head [OF this] show ?thesis
    by (auto simp: startswith_def)
qed

lemma py_step_class_line:
  assumes "class_match (lines ! i) = Some c"
  shows "py_step f lines i (loc, m) =
     Inr (\<lparr>class_markers = class_lookback lines i, function_markers = {},
           current_class = Some c\<rparr>, m)"
proof -
  have "test_match (lines ! i) = None"
    using assms test_match_not_class [of "lines ! i"] by (cases "test_match (lines ! i)") auto
  then show ?thesis
    using assms strip_class_line [OF assms] by (intro py_step_class) simp_all
qed

lemma py_step_plain:
  assumes "class_match (lines ! i) = None" and "test_match (lines ! i) = None"
  shows "\<exists>fm. py_step f lines i (loc, m) = Inr (loc\<lparr>function_markers := fm\<rparr>, m)"
proof (cases "startswith ''@pytest.mark.'' (strip (lines ! i)) \<and> marker_search (lines ! i) \<noteq> None")
  case True
  then obtain t where "marker_search (lines ! i) = Some t" by auto
  with True assms have "py_step f lines i (loc, m) =
      Inr (loc\<lparr>function_markers := insert t (function_markers loc)\<rparr>, m)"
    by (simp add: py_step_def py_class_step_def py_marker_step_def py_test_step_def)
  then show ?thesis by blast
next
  case False
  with assms have "py_step f lines i (loc, m) = Inr (loc\<lparr>function_markers := function_markers loc\<rparr>, m)"
    by (auto simp: py_step_def py_class_step_def py_marker_step_def py_test_step_def
        split: option.splits)
  then show ?thesis by blast
qed

lemma py_step_decorator:
  assumes "class_match (lines ! i) = None" and "test_match (lines ! i) = None"
    and "startswith ''@pytest.mark.'' (strip (lines ! i))"
    and "marker_search (lines ! i) = Some t"
  shows "py_step f lines i (loc, m) =
     Inr (loc\<lparr>function_markers := insert t (function_markers loc)\<rparr>, m)"
  using assms
  by (simp add: py_step_def py_class_step_def py_marker_step_def py_test_step_def)

lemma upt_split: "i \<le> j \<Longrightarrow> j \<le> k \<Longrightarrow> [i ..< k] = [i ..< j] @ [j ..< k]" for i j k :: nat
  using upt_add_eq_append [of i j "k - j"] by simp

lemma upt_head: "i < k \<Longrightarrow> [i ..< k] = i # [i + 1 ..< k]" for i k :: nat
  by (simp add: upt_conv_Cons)

lemma upt_scenario:
  fixes a g k p :: nat
  defines "c \<equiv> a + 1 + g"
  defines "e \<equiv> c + 3 + k"
  shows "[0 ..< e + 1 + p] =
     [0 ..< a] @ a # [a + 1 ..< c] @ c # (c + 1) # (c + 2) # [c + 3 ..< e] @ e # [e + 1 ..< e + 1 + p]"
proof -
  have "[0 ..< e + 1 + p] = [0 ..< a] @ [a ..< e + 1 + p]"
    by (rule upt_split) (simp_all add: c_def e_def)
  also have "[a ..< e + 1 + p] = a # [a + 1 ..< e + 1 + p]"
    by (rule upt_head) (simp add: c_def e_def)
  also have "[a + 1 ..< e + 1 + p] = [a + 1 ..< c] @ [c ..< e + 1 + p]"
    by (rule upt_split) (simp_all add: c_def e_def)
  also have "[c ..< e + 1 + p] = c # [c + 1 ..< e + 1 + p]"
    by (rule upt_head) (simp add: e_def)
  also have "[c + 1 ..< e + 1 + p] = (c + 1) # [c + 1 + 1 ..< e + 1 + p]"
    by (rule upt_head) (simp add: e_def)
  also have "c + 1 + 1 = c + 2" by simp
  also have "[c + 2 ..< e + 1 + p] = (c + 2) # [c + 2 + 1 ..< e + 1 + p]"
    by (rule upt_head) (simp add: e_def)
  also have "c + 2 + 1 = c + 3" by simp
  also have "[c + 3 ..< e + 1 + p] = [c + 3 ..< e] @ [e ..< e + 1 + p]"
    by (rule upt_split) (simp_all add: e_def)
  also have "[e ..< e + 1 + p] = e # [e + 1 ..< e + 1 + p]"
    by (rule upt_head) simp
  finally show ?thesis by simp
qed

lemma scenario_loop:
  fixes pre gap mid post :: "string list"
  assumes lines: "lines = pre @ ann # gap @ cls # dec # t1 # mid @ t2 # post"
    and rel: "rel_path f = Some rp"
    and inert: "\<forall>l \<in> set (pre @ gap @ mid @ post). inert l"
    and ann: "class_match ann = None" "test_match ann = None" "marker_search ann = Some Integration"
    and near: "length gap < 10"
    and cls: "class_match cls = Some c"
    and dec: "class_match dec = None" "test_match dec = None"
      "startswith ''@pytest.mark.'' (strip dec)" "marker_search dec = Some Unit"
    and t1: "test_match t1 = Some n1"
    and t2: "test_match t2 = Some n2"
  shows "\<exists>loc. py_loop f lines [0 ..< length lines] (py_init, m) =
     ((loc, add_test (py_test_id rp (Some c) n2) {Integration}
              (add_test (py_test_id rp (Some c) n1) {Integration, Unit} m)), None)"
proof -
  let ?a = "length pre"
  let ?c = "?a + 1 + length gap"
  let ?e = "?c + 3 + length mid"
  let ?n = "length lines"
  have n: "?n = ?e + 1 + length post"
    by (simp add: lines)
  have in_pre: "lines ! i \<in> set pre" if "i < ?a" for i
    using that by (simp add: lines nth_append)
  have at_a: "lines ! ?a = ann"
    by (simp add: lines)
  have in_gap: "lines ! i \<in> set gap" if "?a < i" "i < ?c" for i
  proof -
    from that have "lines ! i = gap ! (i - ?a - 1)" "i - ?a - 1 < length gap"
      by (auto simp: lines nth_append nth_Cons')
    then show ?thesis by simp
  qed
  have tail: "lines ! (?c + k) = (cls # dec # t1 # mid @ t2 # post) ! k" for k
  proof -
    have "lines = (pre @ ann # gap) @ (cls # dec # t1 # mid @ t2 # post)"
      by (simp add: lines)
    moreover have "length (pre @ ann # gap) = ?c"
      by simp
    ultimately show ?thesis
      using nth_append_length_plus [of "pre @ ann # gap" "cls # dec # t1 # mid @ t2 # post" k]
      by simp
  qed
  have at_c: "lines ! ?c = cls" using tail [of 0] by simp
  have at_c1: "lines ! (?c + 1) = dec" using tail [of 1] by simp
  have at_c2: "lines ! (?c + 2) = t1" using tail [of 2] by simp
  have in_mid: "lines ! i \<in> set mid" if "?c + 3 \<le> i" "i < ?e" for i
  proof -
    define k where "k = i - (?c + 3)"
    from that have k: "i = ?c + (3 + k)" "k < length mid"
      by (simp_all add: k_def)
    then have "lines ! i = mid ! k"
      using tail [of "3 + k"] by (simp add: nth_append numeral_3_eq_3)
    with k show ?thesis by simp
  qed
  have at_e: "lines ! ?e = t2"
    using tail [of "3 + length mid"] by (simp add: numeral_3_eq_3 add.assoc)
  have in_post: "lines ! i \<in> set post" if "?e < i" "i < ?n" for i
  proof -
    define k where "k = i - (?e + 1)"
    from that n have k: "i = ?c + (3 + (length mid + (1 + k)))" "k < length post"
      by (simp_all add: k_def)
    then have "lines ! i = post ! k"
      using tail [of "3 + (length mid + (1 + k))"] by (simp add: nth_append numeral_3_eq_3)
    with k show ?thesis by simp
  qed
  have idx: "[0 ..< ?n] = [0 ..< ?a] @ ?a # [?a + 1 ..< ?c] @ ?c # (?c + 1) # (?c + 2) #
      [?c + 3 ..< ?e] @ ?e # [?e + 1 ..< ?n]"
    using upt_scenario [of ?a "length gap" "length mid" "length post"] by (simp only: n)
  have all_inert: "\<forall>i \<in> set [lo ..< hi]. inert (lines ! i)"
    if "\<And>i. lo \<le> i \<Longrightarrow> i < hi \<Longrightarrow> lines ! i \<in> set seg" "set seg \<subseteq> set (pre @ gap @ mid @ post)"
    for lo hi seg
  proof
    fix i assume "i \<in> set [lo ..< hi]"
    then have "lo \<le> i" "i < hi" by (simp_all only: set_upt atLeastLessThan_iff)
    then have "lines ! i \<in> set seg" by (rule that(1))
    with that(2) inert show "inert (lines ! i)" by blast
  qed
  have s1: "py_loop f lines [0 ..< ?a] (py_init, m) = ((py_init, m), None)"
    by (intro py_loop_inert all_inert [of _ _ pre]) (auto simp: in_pre)
  obtain fm where s2: "py_step f lines ?a (py_init, m) = Inr (py_init\<lparr>function_markers := fm\<rparr>, m)"
    using py_step_plain [of lines ?a f py_init m] ann at_a by auto
  let ?l2 = "py_init\<lparr>function_markers := fm\<rparr>"
  have s3: "py_loop f lines [?a + 1 ..< ?c] (?l2, m) = ((?l2, m), None)"
    by (intro py_loop_inert all_inert [of _ _ gap]) (auto simp: in_gap)
  have look: "class_lookback lines ?c = {Integration}"
  proof -
    have "marker_search (lines ! j) = Some t \<longleftrightarrow> j = ?a \<and> t = Integration" if "j < ?c" for j t
    proof (cases "j < ?a")
      case True
      with in_pre inert have "inert (lines ! j)" by auto
      with True show ?thesis by (simp add: inert_def)
    next
      case False
      show ?thesis
      proof (cases "j = ?a")
        case True
        with ann at_a show ?thesis by auto
      next
        case False
        with \<open>\<not> j < ?a\<close> that in_gap [of j] inert have "inert (lines ! j)" by auto
        with False show ?thesis by (simp add: inert_def)
      qed
    qed
    moreover have "?c - 10 \<le> ?a"
      using near by simp
    ultimately show ?thesis
      by (auto simp: class_lookback_set)
  qed
  let ?l4 = "\<lparr>class_markers = {Integration}, function_markers = {}, current_class = Some c\<rparr>"
  have s4: "py_step f lines ?c (?l2, m) = Inr (?l4, m)"
    using py_step_class_line [of lines ?c c f ?l2 m] cls at_c look by simp
  let ?l5 = "?l4\<lparr>function_markers := {Unit}\<rparr>"
  have s5: "py_step f lines (?c + 1) (?l4, m) = Inr (?l5, m)"
    using py_step_decorator [of lines "?c + 1" Unit f ?l4 m] dec at_c1 by simp
  let ?m6 = "add_test (py_test_id rp (Some c) n1) {Integration, Unit} m"
  have s6: "py_step f lines (?c + 2) (?l5, m) = Inr (?l4, ?m6)"
    using py_step_test [of lines "?c + 2" n1 f rp ?l5 m] t1 at_c2 rel
    by (simp add: insert_commute)
  have s7: "py_loop f lines [?c + 3 ..< ?e] (?l4, ?m6) = ((?l4, ?m6), None)"
    by (intro py_loop_inert all_inert [of _ _ mid]) (auto simp: in_mid)
  let ?m8 = "add_test (py_test_id rp (Some c) n2) {Integration} ?m6"
  have s8: "py_step f lines ?e (?l4, ?m6) = Inr (?l4, ?m8)"
    using py_step_test [of lines ?e n2 f rp ?l4 ?m6] t2 at_e rel by simp
  have s9: "py_loop f lines [?e + 1 ..< ?n] (?l4, ?m8) = ((?l4, ?m8), None)"
    by (intro py_loop_inert all_inert [of _ _ post]) (auto simp: in_post)
  have "py_loop f lines [0 ..< ?n] (py_init, m) = ((?l4, ?m8), None)"
    unfolding idx
    by (simp only: py_loop_append py_loop.simps s1 s2 s3 s4 s5 s6 s7 s8 s9 prod.case option.case
        sum.case)
  then show ?thesis by blast
qed

text \<open>
  C5. Let a readable file under the project root consist of these lines, in this order:
  a line with an \<^verbatim>\<open>integration\<close> marker; fewer than ten lines; the declaration of a
  \<^verbatim>\<open>Test\<close> class; a decorator line with a \<^verbatim>\<open>unit\<close> marker; a test function; more lines;
  a second test function; more lines; where the lines not named are no class
  declaration, no test and hold no marker (lines of this kind may also come first).
  Then the extractor, on a new monitor, prints no warning and finds exactly the two
  tests; both are in the \<^verbatim>\<open>integration\<close> set, whose marker is taken from the ten lines
  above the class, the first is in the \<^verbatim>\<open>unit\<close> set as well, whose marker is its own
  decorator, the \<^verbatim>\<open>e2e\<close> set is empty, and no test is without a tier.
\<close>

theorem C5_class_and_function_markers:
  fixes pre gap mid post :: "string list"
  assumes readable: "data f = Readable content"
    and rel: "rel_path f = Some rp"
    and lines: "split_nl content = pre @ ann # gap @ cls # dec # t1 # mid @ t2 # post"
    and inert: "\<forall>l \<in> set (pre @ gap @ mid @ post). inert l"
    and ann: "class_match ann = None" "test_match ann = None" "marker_search ann = Some Integration"
    and near: "length gap < 10"
    and cls: "class_match cls = Some c"
    and dec: "class_match dec = None" "test_match dec = None"
      "startswith ''@pytest.mark.'' (strip dec)" "marker_search dec = Some Unit"
    and t1: "test_match t1 = Some n1"
    and t2: "test_match t2 = Some n2"
  shows "snd (parse_python_test_file f (init_monitor tg ms)) = [] \<and>
    all_tests (fst (parse_python_test_file f (init_monitor tg ms))) =
      {py_test_id rp (Some c) n1, py_test_id rp (Some c) n2} \<and>
    tests_by_marker (fst (parse_python_test_file f (init_monitor tg ms))) Integration =
      {py_test_id rp (Some c) n1, py_test_id rp (Some c) n2} \<and>
    tests_by_marker (fst (parse_python_test_file f (init_monitor tg ms))) Unit =
      {py_test_id rp (Some c) n1} \<and>
    tests_by_marker (fst (parse_python_test_file f (init_monitor tg ms))) E2e = {} \<and>
    get_missing_markers_count (fst (parse_python_test_file f (init_monitor tg ms))) = 0"
proof -
  let ?m = "init_monitor tg ms"
  let ?r = "add_test (py_test_id rp (Some c) n2) {Integration}
      (add_test (py_test_id rp (Some c) n1) {Integration, Unit} ?m)"
  obtain loc where "py_loop f (split_nl content) [0 ..< length (split_nl content)] (py_init, ?m) =
      ((loc, ?r), None)"
    using scenario_loop [OF lines rel inert ann near cls dec t1 t2, of ?m] by blast
  then have p: "parse_python_test_file f ?m = (?r, [])"
    using readable by (simp add: parse_python_test_file_def read_text_def Let_def)
  have a: "all_tests ?r = {py_test_id rp (Some c) n1, py_test_id rp (Some c) n2}"
    by (auto simp: init_monitor_def)
  have i: "tests_by_marker ?r Integration = {py_test_id rp (Some c) n1, py_test_id rp (Some c) n2}"
    by (auto simp: init_monitor_def)
  have u: "tests_by_marker ?r Unit = {py_test_id rp (Some c) n1}"
    by (auto simp: init_monitor_def)
  have e: "tests_by_marker ?r E2e = {}"
    by (auto simp: init_monitor_def)
  have g: "get_missing_markers_count ?r = 0"
    unfolding get_missing_markers_count_def a by (simp add: all_tiers_def i u e)
  show ?thesis
    unfolding p fst_conv snd_conv using a i u e g by simp
qed

theorem C5_class_and_function_markers_witness:
  "data scenario_file = Readable (content_of scenario_file) \<and>
   rel_path scenario_file = Some ''tests/test_orders.py'' \<and>
   split_nl (content_of scenario_file) =
     [''import pytest'', []] @ ''@pytest.mark.integration'' # [] @ ''class TestOrders:'' #
     ''    @pytest.mark.unit'' # ''    def test_total(self):'' #
     [''        assert total([1, 2]) == 3'', []] @ ''    def test_store(self):'' #
     [''        assert store(1)''] \<and>
   inert ''import pytest'' \<and> inert [] \<and> inert ''        assert total([1, 2]) == 3'' \<and>
   inert ''        assert store(1)'' \<and>
   marker_search ''@pytest.mark.integration'' = Some Integration \<and>
   class_match ''class TestOrders:'' = Some ''TestOrders'' \<and>
   marker_search ''    @pytest.mark.unit'' = Some Unit \<and>
   test_match ''    def test_total(self):'' = Some ''test_total'' \<and>
   test_match ''    def test_store(self):'' = Some ''test_store'' \<and>
   snd (parse_python_test_file scenario_file (init_monitor DEFAULT_TARGETS 5.5)) = [] \<and>
   all_tests (fst (parse_python_test_file scenario_file (init_monitor DEFAULT_TARGETS 5.5))) =
     {''tests/test_orders.py::TestOrderstest_total'',
      ''tests/test_orders.py::TestOrderstest_store''} \<and>
   tests_by_marker (fst (parse_python_test_file scenario_file (init_monitor DEFAULT_TARGETS 5.5)))
       Integration =
     {''tests/test_orders.py::TestOrderstest_total'',
      ''tests/test_orders.py::TestOrderstest_store''} \<and>
   tests_by_marker (fst (parse_python_test_file scenario_file (init_monitor DEFAULT_TARGETS 5.5)))
       Unit =
     {''tests/test_orders.py::TestOrderstest_total''} \<and>
   tests_by_marker (fst (parse_python_test_file scenario_file (init_monitor DEFAULT_TARGETS 5.5)))
       E2e = {} \<and>
   get_missing_markers_count
     (fst (parse_python_test_file scenario_file (init_monitor DEFAULT_TARGETS 5.5))) = 0"
proof -
  have h1: "data scenario_file = Readable (content_of scenario_file)"
    by (simp add: scenario_file_def content_of_def)
  have h2: "rel_path scenario_file = Some ''tests/test_orders.py''"
    by (simp add: scenario_file_def)
  have h3: "split_nl (content_of scenario_file) =
     [''import pytest'', []] @ ''@pytest.mark.integration'' # [] @ ''class TestOrders:'' #
     ''    @pytest.mark.unit'' # ''    def test_total(self):'' #
     [''        assert total([1, 2]) == 3'', []] @ ''    def test_store(self):'' #
     [''        assert store(1)'']"
    by code_simp
  have i: "inert ''import pytest''" "inert []" "inert ''        assert total([1, 2]) == 3''"
    "inert ''        assert store(1)''"
    by code_simp+
  then have h4: "\<forall>l \<in> set ([''import pytest'', []] @ [] @
      [''        assert total([1, 2]) == 3'', []] @ [''        assert store(1)'']). inert l"
    by simp
  have ann: "class_match ''@pytest.mark.integration'' = None"
    "test_match ''@pytest.mark.integration'' = None"
    "marker_search ''@pytest.mark.integration'' = Some Integration"
    by code_simp+
  have near: "length ([] :: string list) < 10"
    by simp
  have cls: "class_match ''class TestOrders:'' = Some ''TestOrders''"
    by code_simp
  have dec: "class_match ''    @pytest.mark.unit'' = None" "test_match ''    @pytest.mark.unit'' = None"
    "startswith ''@pytest.mark.'' (strip ''    @pytest.mark.unit'')"
    "marker_search ''    @pytest.mark.unit'' = Some Unit"
    by code_simp+
  have t1: "test_match ''    def test_total(self):'' = Some ''test_total''"
    by code_simp
  have t2: "test_match ''    def test_store(self):'' = Some ''test_store''"
    by code_simp
  have ids: "py_test_id ''tests/test_orders.py'' (Some ''TestOrders'') ''test_total'' =
      ''tests/test_orders.py::TestOrderstest_total''"
    "py_test_id ''tests/test_orders.py'' (Some ''TestOrders'') ''test_store'' =
      ''tests/test_orders.py::TestOrderstest_store''"
    by (simp_all add: py_test_id_def)
  note inst = C5_class_and_function_markers [OF h1 h2 h3 h4 ann near cls dec t1 t2,
      of DEFAULT_TARGETS "5.5", unfolded ids]
  from h1 h2 h3 i ann(3) cls dec(4) t1 t2 inst show ?thesis
    by (simp only: simp_thms)
qed

subsection \<open>The tests that the Python extractor adds\<close>

lemma class_after_Suc:
  "class_after lines (Suc k) =
     (case class_match (lines ! k) of Some c \<Rightarrow> Some c | None \<Rightarrow> class_after lines k)"
  by (simp add: class_after_def split: option.splits)

lemma py_loop_prefix:
  assumes rel: "rel_path f = Some rp"
  shows "\<exists>loc mk. py_loop f lines [0 ..< k] (py_init, m) = ((loc, mk), None) \<and>
     current_class loc = class_after lines k \<and>
     all_tests mk = all_tests m \<union>
       {py_test_id rp (class_after lines (Suc i)) test_name | i test_name.
          i < k \<and> test_match (lines ! i) = Some test_name}"
proof (induction k)
  case 0
  show ?case
    by (simp add: py_init_def class_after_def)
next
  case (Suc k)
  let ?ids = "\<lambda>k. {py_test_id rp (class_after lines (Suc i)) test_name | i test_name.
          i < k \<and> test_match (lines ! i) = Some test_name}"
  from Suc obtain loc mk where
    loop: "py_loop f lines [0 ..< k] (py_init, m) = ((loc, mk), None)"
    and cur: "current_class loc = class_after lines k"
    and ids: "all_tests mk = all_tests m \<union> ?ids k"
    by blast
  have run: "py_loop f lines [0 ..< Suc k] (py_init, m) =
      (case py_step f lines k (loc, mk) of
         Inl e \<Rightarrow> ((loc, mk), Some e) | Inr st' \<Rightarrow> (st', None))"
    by (simp add: py_loop_append loop split: sum.splits)
  show ?case
  proof (cases "class_match (lines ! k)")
    case (Some c)
    have no_test: "test_match (lines ! k) = None"
      using Some test_match_not_class [of "lines ! k"] by (cases "test_match (lines ! k)") auto
    then have "?ids (Suc k) = ?ids k"
      by (auto simp: less_Suc_eq)
    moreover have "py_loop f lines [0 ..< Suc k] (py_init, m) =
        ((\<lparr>class_markers = class_lookback lines k, function_markers = {},
           current_class = Some c\<rparr>, mk), None)"
      by (simp only: run py_step_class_line [OF Some] sum.case)
    ultimately show ?thesis
      using ids Some by (simp add: class_after_Suc del: upt_Suc)
  next
    case None
    then have after: "class_after lines (Suc k) = class_after lines k"
      by (simp add: class_after_Suc)
    show ?thesis
    proof (cases "test_match (lines ! k)")
      case no_test: None
      then have same: "?ids (Suc k) = ?ids k"
        by (auto simp: less_Suc_eq)
      obtain fm where "py_step f lines k (loc, mk) = Inr (loc\<lparr>function_markers := fm\<rparr>, mk)"
        using py_step_plain [OF None no_test] by blast
      then have "py_loop f lines [0 ..< Suc k] (py_init, m) =
          ((loc\<lparr>function_markers := fm\<rparr>, mk), None)"
        by (simp only: run sum.case)
      then show ?thesis
        using ids cur after same by (simp del: upt_Suc)
    next
      case (Some test_name)
      let ?id = "py_test_id rp (class_after lines (Suc k)) test_name"
      have more: "?ids (Suc k) = insert ?id (?ids k)"
        using Some by (auto simp: less_Suc_eq)
      let ?mk = "add_test (py_test_id rp (current_class loc) test_name)
          (class_markers loc \<union> function_markers loc) mk"
      have "py_step f lines k (loc, mk) = Inr (loc\<lparr>function_markers := {}\<rparr>, ?mk)"
        by (rule py_step_test [OF Some rel])
      then have "py_loop f lines [0 ..< Suc k] (py_init, m) =
          ((loc\<lparr>function_markers := {}\<rparr>, ?mk), None)"
        by (simp only: run sum.case)
      moreover have "all_tests ?mk = all_tests m \<union> ?ids (Suc k)"
        by (simp add: ids more cur after)
      ultimately show ?thesis
        using cur after by (simp del: upt_Suc)
    qed
  qed
qed

lemma parse_python_all_tests:
  assumes readable: "data f = Readable content"
  shows "all_tests (fst (parse_python_test_file f m)) =
     all_tests m \<union>
     (case rel_path f of
        None \<Rightarrow> {}
      | Some rp \<Rightarrow>
          {py_test_id rp (class_after (split_nl content) (Suc i)) test_name | i test_name.
             i < length (split_nl content) \<and> test_match (split_nl content ! i) = Some test_name})"
proof -
  let ?lines = "split_nl content"
  have fst_eq: "fst (parse_python_test_file f m) =
      snd (fst (py_loop f ?lines [0 ..< length ?lines] (py_init, m)))"
    using readable
    by (simp add: parse_python_test_file_def read_text_def Let_def split: prod.splits option.splits)
  show ?thesis
  proof (cases "rel_path f")
    case None
    then show ?thesis
      by (simp add: fst_eq py_loop_no_rel)
  next
    case (Some rp)
    from py_loop_prefix [OF Some, of ?lines "length ?lines" m] Some show ?thesis
      by (auto simp: fst_eq)
  qed
qed

subsection \<open>Files whose extraction raises\<close>












subsection \<open>Files that the validator cannot read\<close>







subsection \<open>Indentation of test lines, and files that fail\<close>

text \<open>
  C10. The test pattern matches no line that has \<^verbatim>\<open>def\<close> after a number of spaces other
  than four, and every line it matches starts with four spaces and \<^verbatim>\<open>def test_\<close>. For a
  readable file, the tests that the monitor's extractor adds to \<^verbatim>\<open>all_tests\<close> are exactly
  the identifiers built from the lines that the pattern matches, each with the name the
  pattern captures and the class in force on that line (none at all when the path is
  not under the project root); the validator's count of tests checked goes up by the
  number of lines that the pattern matches, and every violation it records carries the
  number of such a line.
\<close>

theorem C10_only_four_space_lines_are_tests:
  assumes readable: "data f = Readable content"
  shows "(\<forall>k rest. k \<noteq> 4 \<longrightarrow> test_match (replicate k CHR '' '' @ ''def '' @ rest) = None) \<and>
    (\<forall>l. test_match l \<noteq> None \<longrightarrow> startswith ''    def test_'' l) \<and>
    (\<forall>x \<in> all_tests (fst (parse_python_test_file f m)) - all_tests m.
       \<exists>i < length (split_nl content). test_match (split_nl content ! i) \<noteq> None) \<and>
    all_tests (fst (parse_python_test_file f m)) =
      all_tests m \<union>
      (case rel_path f of
         None \<Rightarrow> {}
       | Some rp \<Rightarrow>
           {py_test_id rp (class_after (split_nl content) (Suc i)) test_name | i test_name.
              i < length (split_nl content) \<and>
              test_match (split_nl content ! i) = Some test_name}) \<and>
    total_tests_checked (snd (validate_file f v)) =
      total_tests_checked v + length (filter (\<lambda>l. test_match l \<noteq> None) (split_nl content)) \<and>
    (\<forall>i loc. Missing_marker i loc \<in> set (snd (fst (validate_file f v))) \<longrightarrow>
       1 \<le> i \<and> i \<le> length (split_nl content) \<and> test_match (split_nl content ! (i - 1)) \<noteq> None)"
proof -
  let ?lines = "split_nl content"
  have a: "\<forall>k rest. k \<noteq> 4 \<longrightarrow> test_match (replicate k CHR '' '' @ ''def '' @ rest) = None"
    by (intro allI impI test_match_other_indent)
  have b: "\<forall>l. test_match l \<noteq> None \<longrightarrow> startswith ''    def test_'' l"
    using test_match_startswith by blast
  have c: "\<exists>i < length ?lines. test_match (?lines ! i) \<noteq> None"
    if x: "x \<in> all_tests (fst (parse_python_test_file f m)) - all_tests m" for x
  proof -
    obtain st err where loop: "py_loop f ?lines [0 ..< length ?lines] (py_init, m) = (st, err)"
      by (cases "py_loop f ?lines [0 ..< length ?lines] (py_init, m)")
    then have "fst (parse_python_test_file f m) = snd st"
      using readable
      by (simp add: parse_python_test_file_def read_text_def Let_def split: option.splits)
    with x loop
    have "x \<in> all_tests (snd (fst (py_loop f ?lines [0 ..< length ?lines] (py_init, m))))"
      and "x \<notin> all_tests m"
      by simp_all
    from py_loop_all_tests [OF this(1)] this(2) show ?thesis
      by auto
  qed
  note c' = parse_python_all_tests [OF readable, of m]
  have fold_eq: "validate_file f v =
      (let st = fold (v_step ?lines) [1 ..< length ?lines + 1] (v_init, v);
           vs = v_violations (fst st)
       in ((length vs = 0, vs), snd st))"
    using readable by (simp add: validate_file_def Let_def)
  have d: "total_tests_checked (snd (validate_file f v)) =
      total_tests_checked v + length (filter (\<lambda>l. test_match l \<noteq> None) ?lines)"
    using filter_shifted_index [of "\<lambda>l. test_match l \<noteq> None" ?lines]
    by (simp add: fold_eq Let_def fold_v_step_checked del: upt_Suc)
  have e: "1 \<le> i \<and> i \<le> length ?lines \<and> test_match (?lines ! (i - 1)) \<noteq> None"
    if "Missing_marker i loc \<in> set (snd (fst (validate_file f v)))" for i loc
  proof -
    from that have "Missing_marker i loc \<in>
        set (v_violations (fst (fold (v_step ?lines) [1 ..< length ?lines + 1] (v_init, v))))"
      by (simp add: fold_eq Let_def del: upt_Suc)
    from fold_v_step_v_violations [OF this] show ?thesis
      by (auto simp: v_init_def simp del: upt_Suc)
  qed
  from c have c0: "\<forall>x \<in> all_tests (fst (parse_python_test_file f m)) - all_tests m.
       \<exists>i < length ?lines. test_match (?lines ! i) \<noteq> None"
    by blast
  from e have e0: "\<forall>i loc. Missing_marker i loc \<in> set (snd (fst (validate_file f v))) \<longrightarrow>
       1 \<le> i \<and> i \<le> length ?lines \<and> test_match (?lines ! (i - 1)) \<noteq> None"
    by blast
  show ?thesis
    by (intro conjI a b c0 c' d e0)
qed

theorem C10_only_four_space_lines_are_tests_witness:
  "data indent_file = Readable (content_of indent_file) \<and>
   split_nl (content_of indent_file) =
     [''@pytest.mark.unit'', ''def test_top():'', ''    pass'', ''class TestX:'',
      ''    def test_in(self):'', ''        def test_deep():'', ''            pass''] \<and>
   test_match (replicate 0 CHR '' '' @ ''def '' @ ''test_top():'') = None \<and>
   test_match (replicate 8 CHR '' '' @ ''def '' @ ''test_deep():'') = None \<and>
   all_tests (fst (parse_python_test_file indent_file (init_monitor DEFAULT_TARGETS 5.5))) =
     {''tests/test_indent.py::TestXtest_in''} \<and>
   total_tests_checked (snd (validate_file indent_file init_validator)) = 1 \<and>
   fst (validate_file indent_file init_validator) = (True, [])"
proof -
  have h: "data indent_file = Readable (content_of indent_file)"
    by (simp add: indent_file_def content_of_def)
  have l: "split_nl (content_of indent_file) =
     [''@pytest.mark.unit'', ''def test_top():'', ''    pass'', ''class TestX:'',
      ''    def test_in(self):'', ''        def test_deep():'', ''            pass'']"
    by code_simp
  have n: "length (filter (\<lambda>l. test_match l \<noteq> None)
     [''@pytest.mark.unit'', ''def test_top():'', ''    pass'', ''class TestX:'',
      ''    def test_in(self):'', ''        def test_deep():'', ''            pass'']) = 1"
    by code_simp
  have a: "all_tests (fst (parse_python_test_file indent_file (init_monitor DEFAULT_TARGETS 5.5))) =
     {''tests/test_indent.py::TestXtest_in''}"
    by code_simp
  have r: "fst (validate_file indent_file init_validator) = (True, [])"
    by code_simp
  have t0: "total_tests_checked init_validator = 0"
    by (simp add: init_validator_def)
  note inst = C10_only_four_space_lines_are_tests [OF h,
      of "init_monitor DEFAULT_TARGETS 5.5" init_validator]
  have p1: "\<forall>k rest. k \<noteq> 4 \<longrightarrow> test_match (replicate k CHR '' '' @ ''def '' @ rest) = None"
    using inst by (rule conjunct1)
  have p4: "total_tests_checked (snd (validate_file indent_file init_validator)) =
      total_tests_checked init_validator +
      length (filter (\<lambda>l. test_match l \<noteq> None) (split_nl (content_of indent_file)))"
    using inst [THEN conjunct2, THEN conjunct2, THEN conjunct2, THEN conjunct2, THEN conjunct1] .
  have "test_match (replicate 0 CHR '' '' @ ''def '' @ ''test_top():'') = None"
    by (rule p1 [rule_format]) simp
  moreover have "test_match (replicate 8 CHR '' '' @ ''def '' @ ''test_deep():'') = None"
    by (rule p1 [rule_format]) simp
  moreover have "total_tests_checked (snd (validate_file indent_file init_validator)) = 1"
    using p4 [unfolded l n t0] by simp
  ultimately show ?thesis
    using h l a r by blast
qed




end
